theory Spec2Isabelle
  imports Main "HOL-Library.Word"
begin

unbundle bit_operations_syntax

section \<open>Intel IOMMU shared virtual addressing: drivers/iommu/intel/svm.c\<close>

text \<open>
  A shallow embedding of the page request queue (PRQ) reader, the PRQ drain, the
  address-space observer's range flush and the host-mode bind and unbind of
  \<^verbatim>\<open>drivers/iommu/intel/svm.c\<close>.

  Conventions. Kernel objects outside the file (devices, address spaces) are identities
  (\<open>nat\<close>). Every call that leaves the file and every register or ring access is logged, in
  program order, in a trace of events; what the outside world answers is an oracle of the
  environment record, and each oracle is given the trace so far, so that an answer may
  depend on everything that happened before (hardware and other threads change registers,
  the ring and address spaces between two accesses).
\<close>

type_synonym u64 = "64 word"
type_synonym u32 = "32 word"
type_synonym u16 = "16 word"

type_synonym dev = nat  \<comment> \<open>a \<^verbatim>\<open>struct device *\<close>\<close>
type_synonym mm = nat  \<comment> \<open>a \<^verbatim>\<open>struct mm_struct *\<close>\<close>

subsection \<open>Constants of headers that are not part of the source\<close>

text \<open>
  Modelled from the spec: the errno numbers are not in the source; the functions return
  them negated, as the source writes them, and the numbers are those of the Linux errno
  tables.
\<close>

definition ENOMEM :: int where "ENOMEM = 12"
definition EBUSY :: int where "EBUSY = 16"
definition ENODEV :: int where "ENODEV = 19"
definition EINVAL :: int where "EINVAL = 22"
definition ENOSPC :: int where "ENOSPC = 28"
definition EALREADY :: int where "EALREADY = 114"
definition ENOTSUPP :: int where "ENOTSUPP = 524"

definition VTD_PAGE_SHIFT :: nat where "VTD_PAGE_SHIFT = 12"

text \<open>
  Modelled from the spec: the bit positions of the \<^verbatim>\<open>SVM_FLAG_*\<close> and
  \<^verbatim>\<open>FAULT_FLAG_*\<close> masks are not in the source; a flags word is kept as the set of
  the flags that are set in it.
\<close>

datatype svm_flag = SVM_FLAG_SUPERVISOR_MODE | SVM_FLAG_GUEST_MODE | SVM_FLAG_GUEST_PASID

datatype fault_flag = FAULT_FLAG_USER | FAULT_FLAG_REMOTE | FAULT_FLAG_WRITE

datatype resp_code = QI_RESP_SUCCESS | QI_RESP_INVALID | QI_RESP_FAILURE

datatype reg = DMAR_PQH_REG | DMAR_PQT_REG | DMAR_PQA_REG | DMAR_PRS_REG

subsection \<open>The page request descriptor\<close>

text \<open>
  \<^verbatim>\<open>struct page_req_dsc\<close>: two quadwords of bit-fields (least significant bit first, as
  the compiler lays them out on x86-64) and two quadwords of private data.
\<close>

record page_req_dsc =
  qw_0 :: u64
  qw_1 :: u64
  priv_data :: "u64 \<times> u64"

definition pasid_present :: "page_req_dsc \<Rightarrow> bool" where
  "pasid_present r = bit (qw_0 r) 8"

definition priv_data_present :: "page_req_dsc \<Rightarrow> bool" where
  "priv_data_present r = bit (qw_0 r) 9"

definition rid :: "page_req_dsc \<Rightarrow> u16" where
  "rid r = ucast (take_bit 16 (drop_bit 16 (qw_0 r)))"

definition pasid :: "page_req_dsc \<Rightarrow> u32" where
  "pasid r = ucast (take_bit 20 (drop_bit 32 (qw_0 r)))"

definition exe_req :: "page_req_dsc \<Rightarrow> bool" where
  "exe_req r = bit (qw_0 r) 52"

definition pm_req :: "page_req_dsc \<Rightarrow> bool" where
  "pm_req r = bit (qw_0 r) 53"

definition rd_req :: "page_req_dsc \<Rightarrow> bool" where
  "rd_req r = bit (qw_1 r) 0"

definition wr_req :: "page_req_dsc \<Rightarrow> bool" where
  "wr_req r = bit (qw_1 r) 1"

definition lpig :: "page_req_dsc \<Rightarrow> bool" where
  "lpig r = bit (qw_1 r) 2"

definition prg_index :: "page_req_dsc \<Rightarrow> u16" where
  "prg_index r = ucast (take_bit 9 (drop_bit 3 (qw_1 r)))"

definition addr :: "page_req_dsc \<Rightarrow> u64" where
  "addr r = drop_bit 12 (qw_1 r)"

subsection \<open>Bindings and device-bindings\<close>

text \<open>
  \<^verbatim>\<open>struct intel_svm_dev\<close> and \<^verbatim>\<open>struct intel_svm\<close> with the fields the source
  reads and writes. The list of device-bindings of a binding is kept in list order, the
  head of the kernel list first.
\<close>

record intel_svm_dev =
  sdev_dev :: dev
  sdev_sid :: u16
  sdev_did :: u16
  sdev_qdep :: u16
  sdev_dev_iotlb :: bool
  sdev_users :: int
  sdev_pasid :: u32

record intel_svm =
  svm_pasid :: u32
  svm_flags :: "svm_flag set"
  svm_mm :: "mm option"
  svm_devs :: "intel_svm_dev list"

text \<open>
  What a \<^verbatim>\<open>struct intel_svm *\<close> variable of the PRQ reader holds: \<^verbatim>\<open>NULL\<close>, an error
  pointer (\<^verbatim>\<open>ERR_PTR(-e)\<close>, which \<^verbatim>\<open>ioasid_find\<close> returns and which is not
  \<^verbatim>\<open>NULL\<close>), or a binding.
\<close>

datatype svm_ref = SvmNull | SvmErr int | SvmPtr intel_svm

definition IS_ERR_OR_NULL :: "svm_ref \<Rightarrow> bool" where
  "IS_ERR_OR_NULL p = (case p of SvmPtr s \<Rightarrow> False | _ \<Rightarrow> True)"

subsection \<open>Descriptors sent to the invalidation queue, fault events, events of the trace\<close>

text \<open>
  Modelled from the spec: the \<^verbatim>\<open>QI_*\<close> macros that pack a descriptor for the
  invalidation queue are not in the source. A descriptor is kept as its type and the
  fields the source passes to those macros: the page-group response with pasid,
  device-ID, pasid_present, priv_data_present, response code, group index, last-in-group
  bit and the two quadwords of private data; the fenced wait-with-status descriptor; the
  PASID-scoped IOTLB invalidation; the device-TLB invalidation.
\<close>

record pgrp_resp =
  pg_pasid :: u32
  pg_did :: u16
  pg_pasid_p :: bool
  pg_pdp :: bool
  pg_resp_code :: resp_code
  pg_idx :: u16
  pg_lpig :: bool
  pg_private :: "u64 \<times> u64"

datatype qi_desc =
    QI_PGRP pgrp_resp
  | QI_IWD_FENCED_STATUS
  | QI_EIOTLB_NONG_PASID u32 u16
  | QI_DEV_EIOTLB u32 u16 int u16

datatype qi_opt = QI_OPT_NONE | QI_OPT_WAIT_DRAIN

datatype pasid_flag = PASID_FLAG_SUPERVISOR_MODE | PASID_FLAG_FL5LP

datatype fault_perm =
  IOMMU_FAULT_PERM_READ | IOMMU_FAULT_PERM_WRITE | IOMMU_FAULT_PERM_EXEC | IOMMU_FAULT_PERM_PRIV

datatype prm_flag =
    IOMMU_FAULT_PAGE_REQUEST_LAST_PAGE
  | IOMMU_FAULT_PAGE_REQUEST_PASID_VALID
  | IOMMU_FAULT_PAGE_RESPONSE_NEEDS_PASID
  | IOMMU_FAULT_PAGE_REQUEST_PRIV_DATA

record iommu_fault_event =
  prm_addr :: u64
  prm_pasid :: u32
  prm_grpid :: u16
  prm_perm :: "fault_perm set"
  prm_flags :: "prm_flag set"
  prm_private_data :: "u64 \<times> u64"
  ev_vector :: u32

record vm_area_struct =
  vm_start :: u64
  vm_flags :: u64

datatype event =
    WriteL reg u32
  | WriteQ reg u64
  | ReadL reg
  | ReadQ reg
  | Fetch nat
  | IoasidFind u32
  | ReportDeviceFault dev iommu_fault_event int
  | MmgetNotZero mm
  | MmapReadLock mm
  | FindExtendVma mm u64
  | HandleMmFault mm vm_area_struct u64 "fault_flag set"
  | MmapReadUnlock mm
  | Mmput mm
  | QiSubmitSync "qi_desc list" qi_opt
  | QiFlushPiotlb u16 u32 u64 u64 int
  | QiFlushDevIotlbPasid u16 u16 u32 u16 u64 nat
  | ReinitCompletion
  | WaitForCompletion
  | Complete
  | EnablePasid dev
  | SetupFirstLevel dev "mm option" u32 u16 "pasid_flag set"
  | TearDownEntry dev u32 bool bool
  | LoadPasid mm u32
  | KfreeRcu dev

text \<open>
  \<^verbatim>\<open>struct device_domain_info\<close> with the fields the source reads;
  \<open>info_iommu_did\<close> is \<^verbatim>\<open>info->domain->iommu_did[info->iommu->seq_id]\<close>, and
  \<open>info_subdevices\<close> is the list \<^verbatim>\<open>info->subdevices\<close>.
\<close>

record device_domain_info =
  info_bus :: "8 word"
  info_devfn :: "8 word"
  info_pfsid :: u16
  info_ats_enabled :: bool
  info_ats_qdep :: "8 word"
  info_pri_enabled :: bool
  info_iommu_did :: u16
  info_subdevices :: "nat list"

text \<open>
  Modelled from the spec: \<^verbatim>\<open>PCI_DEVID\<close> is not in the source; the source-ID is the
  bus number and the device/function number packed into 16 bits.
\<close>

definition PCI_DEVID :: "8 word \<Rightarrow> 8 word \<Rightarrow> u16" where
  "PCI_DEVID bus devfn = push_bit 8 (ucast bus) OR ucast devfn"

subsection \<open>The environment\<close>

text \<open>
  The functions, registers and memory outside the file, as oracles. Each takes the trace
  at the moment of the call. \<open>prq\<close> is the ring memory, read by descriptor index.
  \<^verbatim>\<open>__VIRTUAL_MASK_SHIFT\<close>, \<^verbatim>\<open>prq_size_page_order\<close>, the \<^verbatim>\<open>VM_*\<close> masks, the
  status-register bits and the other constants are values of headers and variables that
  are not in the source. There is one IOMMU: \<open>device_to_iommu\<close> tells whether the
  device is behind it, \<open>intel_svm_capable\<close> and \<open>ecap_srs\<close> are its capabilities.
  \<open>kzalloc_sdev\<close> tells whether the allocation of a device-binding succeeds,
  \<open>kzalloc_svm\<close> is the new binding object or \<^verbatim>\<open>NULL\<close>, and \<open>ioasid_pick\<close> is
  the PASID the allocator chooses between two bounds, if any.
\<close>

record env =
  prq :: "event list \<Rightarrow> nat \<Rightarrow> page_req_dsc"
  dmar_readq :: "event list \<Rightarrow> reg \<Rightarrow> u64"
  readl :: "event list \<Rightarrow> reg \<Rightarrow> u32"
  prq_size_page_order :: nat
  DMA_PRS_PPR :: u32
  DMA_PRS_PRO :: u32
  ioasid_find :: "event list \<Rightarrow> u32 \<Rightarrow> svm_ref"
  get_domain_info :: "dev \<Rightarrow> device_domain_info option"
  pci_ats_queue_depth :: "dev \<Rightarrow> int"
  dev_is_pci :: "dev \<Rightarrow> bool"
  iommu_report_device_fault :: "event list \<Rightarrow> dev \<Rightarrow> iommu_fault_event \<Rightarrow> int"
  VIRTUAL_MASK_SHIFT :: nat
  mmget_not_zero :: "event list \<Rightarrow> mm \<Rightarrow> bool"
  find_extend_vma :: "event list \<Rightarrow> mm \<Rightarrow> u64 \<Rightarrow> vm_area_struct option"
  handle_mm_fault :: "event list \<Rightarrow> mm \<Rightarrow> vm_area_struct \<Rightarrow> u64 \<Rightarrow> fault_flag set \<Rightarrow> u32"
  VM_FAULT_ERROR :: u32
  VM_READ :: u64
  VM_WRITE :: u64
  VM_EXEC :: u64
  device_to_iommu :: "dev \<Rightarrow> bool"
  dmar_disabled :: bool
  intel_svm_capable :: bool
  pci_max_pasids :: "dev \<Rightarrow> int"
  ecap_srs :: bool
  cpu_feature_la57 :: bool
  intel_pasid_max_id :: int
  FLPT_DEFAULT_DID :: u16
  QI_DEV_EIOTLB_MAX_INVS :: "8 word"
  PASID_DISABLED :: u32
  kzalloc_sdev :: "event list \<Rightarrow> bool"
  kzalloc_svm :: "event list \<Rightarrow> nat option"
  ioasid_pick :: "event list \<Rightarrow> u32 \<Rightarrow> u32 \<Rightarrow> u32 option"
  intel_iommu_enable_pasid :: "event list \<Rightarrow> dev \<Rightarrow> int"
  mmu_notifier_register :: "event list \<Rightarrow> mm \<Rightarrow> int"
  intel_pasid_setup_first_level :: "event list \<Rightarrow> dev \<Rightarrow> u32 \<Rightarrow> int"

subsection \<open>Helpers of the PRQ reader\<close>

text \<open>
  \<^verbatim>\<open>PRQ_RING_MASK\<close> is \<^verbatim>\<open>(0x1000 << prq_size_page_order) - 0x20\<close>. The source computes
  it in \<^verbatim>\<open>int\<close> and keeps head and tail in \<^verbatim>\<open>int\<close>; for a page order up to 18 the
  mask and every masked value are below \<open>2 ^ 31\<close>, so the 64-bit values here are the
  source's.
\<close>

definition PRQ_RING_MASK :: "env \<Rightarrow> u64" where
  "PRQ_RING_MASK e = push_bit (prq_size_page_order e) 0x1000 - 0x20"

definition access_error :: "env \<Rightarrow> vm_area_struct \<Rightarrow> page_req_dsc \<Rightarrow> bool" where
  "access_error e vma req =
     (let requested = 0;
          requested = (if exe_req req then requested OR VM_EXEC e else requested);
          requested = (if rd_req req then requested OR VM_READ e else requested);
          requested = (if wr_req req then requested OR VM_WRITE e else requested)
      in (requested AND NOT (vm_flags vma)) \<noteq> 0)"

definition is_canonical_address :: "env \<Rightarrow> u64 \<Rightarrow> bool" where
  "is_canonical_address e a =
     (let shift = 64 - (VIRTUAL_MASK_SHIFT e + 1)
      in signed_drop_bit shift (push_bit shift a) = a)"

definition prq_to_iommu_prot :: "page_req_dsc \<Rightarrow> fault_perm set" where
  "prq_to_iommu_prot req =
     (if rd_req req then {IOMMU_FAULT_PERM_READ} else {}) \<union>
     (if wr_req req then {IOMMU_FAULT_PERM_WRITE} else {}) \<union>
     (if exe_req req then {IOMMU_FAULT_PERM_EXEC} else {}) \<union>
     (if pm_req req then {IOMMU_FAULT_PERM_PRIV} else {})"

text \<open>
  A kernel crash: the code dereferences something that is not a pointer to an object. It
  ends the thread and carries the trace up to that point.
\<close>

datatype crash = BadDeref "event list"

text \<open>
  \<^verbatim>\<open>intel_svm_prq_report\<close>: the event handed to the generic fault dispatcher and the
  dispatcher's return value. The device pointer of a device-binding is never \<^verbatim>\<open>NULL\<close>.
  The event is filled from the descriptor; then \<^verbatim>\<open>get_domain_info(dev)\<close> is
  dereferenced with no test, to read the list of subdevices: for a PCI device without
  domain info the call crashes.
\<close>

definition prq_fault_event :: "device_domain_info \<Rightarrow> page_req_dsc \<Rightarrow> iommu_fault_event" where
  "prq_fault_event info desc =
     \<lparr> prm_addr = push_bit VTD_PAGE_SHIFT (addr desc),
       prm_pasid = pasid desc,
       prm_grpid = prg_index desc,
       prm_perm = prq_to_iommu_prot desc,
       prm_flags =
         (if lpig desc then {IOMMU_FAULT_PAGE_REQUEST_LAST_PAGE} else {}) \<union>
         (if pasid_present desc
          then {IOMMU_FAULT_PAGE_REQUEST_PASID_VALID, IOMMU_FAULT_PAGE_RESPONSE_NEEDS_PASID}
          else {}) \<union>
         (if priv_data_present desc
          then {IOMMU_FAULT_PAGE_REQUEST_LAST_PAGE, IOMMU_FAULT_PAGE_REQUEST_PRIV_DATA}
          else {}),
       prm_private_data = (if priv_data_present desc then priv_data desc else (0, 0)),
       ev_vector = (if info_subdevices info \<noteq> [] then pasid desc else 0) \<rparr>"

definition intel_svm_prq_report ::
  "env \<Rightarrow> event list \<Rightarrow> dev \<Rightarrow> page_req_dsc \<Rightarrow> crash + (int \<times> event list)" where
  "intel_svm_prq_report e tr d desc =
     (if \<not> dev_is_pci e d then Inr (- ENODEV, tr)
      else
        (case get_domain_info e d of
           None \<Rightarrow> Inl (BadDeref tr)
         | Some info \<Rightarrow>
            (let ev = prq_fault_event info desc;
                 ret = iommu_report_device_fault e tr d ev
             in Inr (ret, tr @ [ReportDeviceFault d ev ret]))))"

subsection \<open>The PRQ reader: \<^verbatim>\<open>prq_event_thread\<close>\<close>

text \<open>
  The variables that live across the iterations of the reader's loop: the cached binding
  and device-binding, \<^verbatim>\<open>handled\<close>, and the trace.
\<close>

record prq_state =
  svm :: svm_ref
  sdev :: "intel_svm_dev option"
  handled :: bool
  trace :: "event list"

text \<open>Label \<^verbatim>\<open>no_pasid\<close>: the page-group response, posted when the descriptor asks for one.\<close>

definition prq_response :: "page_req_dsc \<Rightarrow> resp_code \<Rightarrow> pgrp_resp" where
  "prq_response req result =
     \<lparr> pg_pasid = pasid req,
       pg_did = rid req,
       pg_pasid_p = pasid_present req,
       pg_pdp = priv_data_present req,
       pg_resp_code = result,
       pg_idx = prg_index req,
       pg_lpig = lpig req,
       pg_private = (if priv_data_present req then priv_data req else (0, 0)) \<rparr>"

definition no_pasid :: "prq_state \<Rightarrow> page_req_dsc \<Rightarrow> resp_code \<Rightarrow> prq_state" where
  "no_pasid st req result =
     (if lpig req \<or> priv_data_present req
      then st\<lparr>trace := trace st @ [QiSubmitSync [QI_PGRP (prq_response req result)] QI_OPT_NONE]\<rparr>
      else st)"

text \<open>Label \<^verbatim>\<open>bad_req\<close>: forget the cached binding and device-binding, then \<^verbatim>\<open>no_pasid\<close>.\<close>

definition bad_req :: "prq_state \<Rightarrow> page_req_dsc \<Rightarrow> resp_code \<Rightarrow> prq_state" where
  "bad_req st req result = no_pasid (st\<lparr>sdev := None, svm := SvmNull\<rparr>) req result"

text \<open>
  The host-mode fault resolution, from \<^verbatim>\<open>mmget_not_zero\<close> to label \<^verbatim>\<open>invalid\<close>: it
  returns the response code and the trace.
\<close>

definition prq_resolve ::
  "env \<Rightarrow> event list \<Rightarrow> mm \<Rightarrow> page_req_dsc \<Rightarrow> u64 \<Rightarrow> resp_code \<times> event list" where
  "prq_resolve e tr m req address =
     (let live = mmget_not_zero e tr m;
          tr = tr @ [MmgetNotZero m]
      in if \<not> live then (QI_RESP_INVALID, tr)
         else
           (let tr = tr @ [MmapReadLock m];
                vma = find_extend_vma e tr m address;
                tr = tr @ [FindExtendVma m address];
                (result, tr) =
                  (case vma of
                     None \<Rightarrow> (QI_RESP_INVALID, tr)
                   | Some v \<Rightarrow>
                       if address < vm_start v then (QI_RESP_INVALID, tr)
                       else if access_error e v req then (QI_RESP_INVALID, tr)
                       else
                         (let flags = {FAULT_FLAG_USER, FAULT_FLAG_REMOTE} \<union>
                                      (if wr_req req then {FAULT_FLAG_WRITE} else {});
                              ret = handle_mm_fault e tr m v address flags;
                              tr = tr @ [HandleMmFault m v address flags]
                          in if ret AND VM_FAULT_ERROR e \<noteq> 0 then (QI_RESP_INVALID, tr)
                             else (QI_RESP_SUCCESS, tr)))
            in (result, tr @ [MmapReadUnlock m, Mmput m])))"

text \<open>
  The binding for the descriptor: the cached one when its pasid is the descriptor's,
  else the one \<^verbatim>\<open>ioasid_find\<close> returns, which is stored in the cache whatever it is.
  The test \<^verbatim>\<open>!svm || svm->pasid != req->pasid\<close> reads through the cached pointer
  whenever it is not \<^verbatim>\<open>NULL\<close>.
\<close>

definition prq_find_svm :: "env \<Rightarrow> prq_state \<Rightarrow> page_req_dsc \<Rightarrow> crash + prq_state" where
  "prq_find_svm e st req =
     (let lookup = st\<lparr>svm := ioasid_find e (trace st) (pasid req),
                      trace := trace st @ [IoasidFind (pasid req)]\<rparr>
      in case svm st of
           SvmNull \<Rightarrow> Inr lookup
         | SvmErr err \<Rightarrow> Inl (BadDeref (trace st))
         | SvmPtr s \<Rightarrow> if svm_pasid s \<noteq> pasid req then Inr lookup else Inr st)"

text \<open>
  The device-binding for the descriptor: the cached one when its source-ID is the
  descriptor's, else the first one of the binding's list with that source-ID.
\<close>

definition prq_find_sdev :: "prq_state \<Rightarrow> intel_svm \<Rightarrow> page_req_dsc \<Rightarrow> prq_state" where
  "prq_find_sdev st s req =
     (let search = st\<lparr>sdev := find (\<lambda>t. sdev_sid t = rid req) (svm_devs s)\<rparr>
      in case sdev st of
           None \<Rightarrow> search
         | Some d \<Rightarrow> if sdev_sid d \<noteq> rid req then search else st)"

text \<open>
  One iteration of the loop for the descriptor \<open>req\<close>, from the validation to the
  label \<^verbatim>\<open>prq_advance\<close>. It returns the state and the value of \<^verbatim>\<open>result\<close> at the end
  of the iteration.
\<close>

definition prq_handle :: "env \<Rightarrow> prq_state \<Rightarrow> page_req_dsc \<Rightarrow> crash + (prq_state \<times> resp_code)" where
  "prq_handle e st req =
     (let result = QI_RESP_INVALID;
          address = push_bit VTD_PAGE_SHIFT (addr req)
      in if \<not> pasid_present req then Inr (no_pasid st req result, result)
         else if pm_req req \<and> (rd_req req \<or> wr_req req) then Inr (no_pasid st req result, result)
         else if exe_req req \<and> rd_req req then Inr (no_pasid st req result, result)
         else
           (case prq_find_svm e st req of
              Inl c \<Rightarrow> Inl c
            | Inr st \<Rightarrow>
               (case svm st of
                  SvmNull \<Rightarrow> Inr (no_pasid st req result, result)
                | SvmErr err \<Rightarrow> Inr (no_pasid st req result, result)
                | SvmPtr s \<Rightarrow>
                   (let st = prq_find_sdev st s req
                    in if SVM_FLAG_GUEST_MODE \<in> svm_flags s then
                         (case sdev st of
                            None \<Rightarrow> Inr (bad_req st req result, result)
                          | Some d \<Rightarrow>
                             (case intel_svm_prq_report e (trace st) (sdev_dev d) req of
                                Inl c \<Rightarrow> Inl c
                              | Inr (ret, tr) \<Rightarrow>
                                 (let st = st\<lparr>trace := tr\<rparr>
                                  in if ret = 0 then Inr (st, result)
                                     else Inr (bad_req st req result, result))))
                       else
                         (case svm_mm s of
                            None \<Rightarrow> Inr (bad_req st req result, result)
                          | Some m \<Rightarrow>
                             if \<not> is_canonical_address e address
                             then Inr (bad_req st req result, result)
                             else
                               (let (result, tr) = prq_resolve e (trace st) m req address
                                in Inr (bad_req (st\<lparr>trace := tr\<rparr>) req result, result)))))))"

text \<open>
  The loop \<^verbatim>\<open>while (head != tail)\<close>. It need not end when \<open>tail\<close> is not a ring
  offset, so it is a partial function; a crash ends it.
\<close>

partial_function (option) prq_loop ::
  "env \<Rightarrow> u64 \<Rightarrow> prq_state \<Rightarrow> u64 \<Rightarrow> (crash + prq_state) option" where
  "prq_loop e tail st head =
     (if head \<noteq> tail then
        (let idx = unat head div 32;
             req = prq e (trace st) idx;
             st = st\<lparr>handled := True, trace := trace st @ [Fetch idx]\<rparr>
         in case prq_handle e st req of
              Inl c \<Rightarrow> Some (Inl c)
            | Inr (st, result) \<Rightarrow> prq_loop e tail st ((head + 32) AND PRQ_RING_MASK e))
      else Some (Inr st))"

declare prq_loop.simps [code]

text \<open>
  \<^verbatim>\<open>prq_event_thread\<close>. The latency accounting, which touches nothing else, is left
  out. The result is the trace and \<^verbatim>\<open>handled\<close>.
\<close>

definition prq_overflow :: "env \<Rightarrow> event list \<Rightarrow> event list" where
  "prq_overflow e tr =
     (let prs = readl e tr DMAR_PRS_REG;
          tr = tr @ [ReadL DMAR_PRS_REG]
      in if prs AND DMA_PRS_PRO e \<noteq> 0 then
           (let head = dmar_readq e tr DMAR_PQH_REG AND PRQ_RING_MASK e;
                tr = tr @ [ReadQ DMAR_PQH_REG];
                tail = dmar_readq e tr DMAR_PQT_REG AND PRQ_RING_MASK e;
                tr = tr @ [ReadQ DMAR_PQT_REG]
            in if head = tail then tr @ [WriteL DMAR_PRS_REG (DMA_PRS_PRO e)] else tr)
         else tr)"

definition prq_event_thread :: "env \<Rightarrow> event list \<Rightarrow> (crash + (event list \<times> bool)) option" where
  "prq_event_thread e tr =
     (let tr = tr @ [WriteL DMAR_PRS_REG (DMA_PRS_PPR e)];
          tail = dmar_readq e tr DMAR_PQT_REG AND PRQ_RING_MASK e;
          tr = tr @ [ReadQ DMAR_PQT_REG];
          head = dmar_readq e tr DMAR_PQH_REG AND PRQ_RING_MASK e;
          tr = tr @ [ReadQ DMAR_PQH_REG]
      in case prq_loop e tail \<lparr>svm = SvmNull, sdev = None, handled = False, trace = tr\<rparr> head of
           None \<Rightarrow> None
         | Some (Inl c) \<Rightarrow> Some (Inl c)
         | Some (Inr st) \<Rightarrow>
             (let tr = trace st @ [WriteQ DMAR_PQH_REG tail];
                  tr = prq_overflow e tr
              in Some (Inr (tr @ [Complete], handled st))))"

subsection \<open>The address-space observer: \<^verbatim>\<open>intel_invalidate_range\<close>\<close>

text \<open>
  Modelled from the spec: the kernel's \<^verbatim>\<open>fls_long\<close>, \<^verbatim>\<open>ilog2\<close>,
  \<^verbatim>\<open>__roundup_pow_of_two\<close>, \<^verbatim>\<open>order_base_2\<close>, \<^verbatim>\<open>ALIGN\<close>, \<^verbatim>\<open>ALIGN_DOWN\<close> and
  \<^verbatim>\<open>PAGE_SIZE\<close> are not in the source. They are the position of the highest set bit,
  the rounded-down binary logarithm, the next power of two, the rounded-up binary
  logarithm, and rounding up and down to a multiple of a power of two, on 64-bit unsigned
  values; a page has 4 KiB.
\<close>

fun fls :: "nat \<Rightarrow> nat" where
  "fls n = (if n = 0 then 0 else Suc (fls (n div 2)))"

declare fls.simps [simp del]

definition fls_long :: "u64 \<Rightarrow> nat" where
  "fls_long x = fls (unat x)"

definition ilog2 :: "u64 \<Rightarrow> nat" where
  "ilog2 n = fls_long n - 1"

definition roundup_pow_of_two :: "u64 \<Rightarrow> u64" where
  "roundup_pow_of_two n = push_bit (fls_long (n - 1)) 1"

definition order_base_2 :: "u64 \<Rightarrow> nat" where
  "order_base_2 n = (if 1 < n then ilog2 (n - 1) + 1 else 0)"

definition ALIGN_DOWN :: "u64 \<Rightarrow> u64 \<Rightarrow> u64" where
  "ALIGN_DOWN x a = x AND NOT (a - 1)"

definition ALIGN :: "u64 \<Rightarrow> u64 \<Rightarrow> u64" where
  "ALIGN x a = (x + (a - 1)) AND NOT (a - 1)"

definition PAGE_SIZE :: u64 where
  "PAGE_SIZE = 4096"

text \<open>
  \<^verbatim>\<open>__flush_svm_range_dev\<close>. The domain info of the device is read through the
  pointer \<^verbatim>\<open>get_domain_info\<close> returns, after the IOTLB flush was queued.
\<close>

definition flush_svm_range_dev ::
  "env \<Rightarrow> intel_svm \<Rightarrow> intel_svm_dev \<Rightarrow> u64 \<Rightarrow> u64 \<Rightarrow> int \<Rightarrow> event list \<Rightarrow> crash + event list" where
  "flush_svm_range_dev e s sd address pages ih tr =
     (if pages = 0 then Inr tr
      else
        (let tr = tr @ [QiFlushPiotlb (sdev_did sd) (svm_pasid s) address pages ih]
         in case get_domain_info e (sdev_dev sd) of
              None \<Rightarrow> Inl (BadDeref tr)
            | Some info \<Rightarrow>
                if info_ats_enabled info
                then Inr (tr @ [QiFlushDevIotlbPasid (sdev_sid sd) (info_pfsid info) (svm_pasid s)
                                  (sdev_qdep sd) address (order_base_2 pages)])
                else Inr tr))"

text \<open>
  The loop \<^verbatim>\<open>while (start < end)\<close> of \<^verbatim>\<open>intel_flush_svm_range_dev\<close>; \<open>start\<close> wraps
  around when \<open>end'\<close> is within \<open>align\<close> of the top of the address space.
\<close>

partial_function (option) flush_loop ::
  "env \<Rightarrow> intel_svm \<Rightarrow> intel_svm_dev \<Rightarrow> u64 \<Rightarrow> int \<Rightarrow> u64 \<Rightarrow> event list \<Rightarrow> u64 \<Rightarrow>
     (crash + event list) option" where
  "flush_loop e s sd align ih end' tr start =
     (if start < end' then
        (case flush_svm_range_dev e s sd start (drop_bit VTD_PAGE_SHIFT align) ih tr of
           Inl c \<Rightarrow> Some (Inl c)
         | Inr tr \<Rightarrow> flush_loop e s sd align ih end' tr (start + align))
      else Some (Inr tr))"

declare flush_loop.simps [code]

definition intel_flush_svm_range_dev ::
  "env \<Rightarrow> intel_svm \<Rightarrow> intel_svm_dev \<Rightarrow> u64 \<Rightarrow> u64 \<Rightarrow> int \<Rightarrow> event list \<Rightarrow>
     (crash + event list) option" where
  "intel_flush_svm_range_dev e s sd address pages ih tr =
     (let shift = ilog2 (roundup_pow_of_two pages);
          align = push_bit (VTD_PAGE_SHIFT + shift) 1;
          start = ALIGN_DOWN address align;
          end' = ALIGN (address + push_bit VTD_PAGE_SHIFT pages) align
      in flush_loop e s sd align ih end' tr start)"

text \<open>\<^verbatim>\<open>intel_flush_svm_range\<close>: every device-binding of the binding, in list order.\<close>

fun flush_devs ::
  "env \<Rightarrow> intel_svm \<Rightarrow> intel_svm_dev list \<Rightarrow> u64 \<Rightarrow> u64 \<Rightarrow> int \<Rightarrow> event list \<Rightarrow>
     (crash + event list) option" where
  "flush_devs e s [] address pages ih tr = Some (Inr tr)"
| "flush_devs e s (sd # sds) address pages ih tr =
     (case intel_flush_svm_range_dev e s sd address pages ih tr of
        None \<Rightarrow> None
      | Some (Inl c) \<Rightarrow> Some (Inl c)
      | Some (Inr tr) \<Rightarrow> flush_devs e s sds address pages ih tr)"

definition intel_flush_svm_range ::
  "env \<Rightarrow> intel_svm \<Rightarrow> u64 \<Rightarrow> u64 \<Rightarrow> int \<Rightarrow> event list \<Rightarrow> (crash + event list) option" where
  "intel_flush_svm_range e s address pages ih tr = flush_devs e s (svm_devs s) address pages ih tr"

definition intel_invalidate_range ::
  "env \<Rightarrow> intel_svm \<Rightarrow> u64 \<Rightarrow> u64 \<Rightarrow> event list \<Rightarrow> (crash + event list) option" where
  "intel_invalidate_range e s start end' tr =
     intel_flush_svm_range e s start
       (drop_bit VTD_PAGE_SHIFT (end' - start + PAGE_SIZE - 1)) 0 tr"

subsection \<open>Vocabulary for the properties of the PRQ reader\<close>

text \<open>
  Kinds of events: a page-group response posted to the invalidation queue; a report to
  the external fault sink that the sink accepted (returned 0); any report; a lookup of a
  binding; a step of the host-mode fault resolution (among them the call of the
  address space's fault handler).
\<close>

fun is_response :: "event \<Rightarrow> bool" where
  "is_response (QiSubmitSync [QI_PGRP r] opt) = True"
| "is_response _ = False"

fun handed_off :: "event \<Rightarrow> bool" where
  "handed_off (ReportDeviceFault d ev ret) = (ret = 0)"
| "handed_off _ = False"

fun is_report :: "event \<Rightarrow> bool" where
  "is_report (ReportDeviceFault d ev ret) = True"
| "is_report _ = False"

fun is_lookup :: "event \<Rightarrow> bool" where
  "is_lookup (IoasidFind p) = True"
| "is_lookup _ = False"

fun is_resolution :: "event \<Rightarrow> bool" where
  "is_resolution (MmgetNotZero m) = True"
| "is_resolution (MmapReadLock m) = True"
| "is_resolution (FindExtendVma m a) = True"
| "is_resolution (HandleMmFault m v a f) = True"
| "is_resolution (MmapReadUnlock m) = True"
| "is_resolution (Mmput m) = True"
| "is_resolution _ = False"

fun is_head_write :: "event \<Rightarrow> bool" where
  "is_head_write (WriteQ r v) = (r = DMAR_PQH_REG)"
| "is_head_write _ = False"

text \<open>The response the reader posts for a descriptor, if the descriptor asks for one.\<close>

definition response_for :: "page_req_dsc \<Rightarrow> resp_code \<Rightarrow> event list" where
  "response_for req result =
     (if lpig req \<or> priv_data_present req
      then [QiSubmitSync [QI_PGRP (prq_response req result)] QI_OPT_NONE] else [])"

text \<open>The events one iteration adds to the trace.\<close>

definition new_events :: "prq_state \<Rightarrow> prq_state \<Rightarrow> event list" where
  "new_events st st' = drop (length (trace st)) (trace st')"

subsection \<open>Concrete inputs\<close>

text \<open>
  An IOMMU with a one-page ring. Device 1 (source-ID \<open>0x10\<close>) is bound to the host
  address space 1 under pasid 5 and to a guest address space under pasid 6; device 2
  (source-ID \<open>0x20\<close>) is bound to another guest address space under pasid 7. No other
  pasid is allocated, and \<^verbatim>\<open>ioasid_find\<close> answers \<^verbatim>\<open>ERR_PTR(-ENOENT)\<close> for those.
  Device 1 is a PCI device with ATS and PRI enabled; device 2 has no domain info.
\<close>

definition ex_sdev1 :: "u32 \<Rightarrow> intel_svm_dev" where
  "ex_sdev1 p = \<lparr> sdev_dev = 1, sdev_sid = 0x10, sdev_did = 1, sdev_qdep = 0,
                  sdev_dev_iotlb = False, sdev_users = 1, sdev_pasid = p \<rparr>"

definition ex_sdev2 :: "u32 \<Rightarrow> intel_svm_dev" where
  "ex_sdev2 p = \<lparr> sdev_dev = 2, sdev_sid = 0x20, sdev_did = 1, sdev_qdep = 0,
                  sdev_dev_iotlb = False, sdev_users = 1, sdev_pasid = p \<rparr>"

definition ex_svm_host :: intel_svm where
  "ex_svm_host = \<lparr> svm_pasid = 5, svm_flags = {}, svm_mm = Some 1, svm_devs = [ex_sdev1 5] \<rparr>"

definition ex_svm_guest1 :: intel_svm where
  "ex_svm_guest1 = \<lparr> svm_pasid = 6, svm_flags = {SVM_FLAG_GUEST_MODE}, svm_mm = None,
                      svm_devs = [ex_sdev1 6] \<rparr>"

definition ex_svm_guest2 :: intel_svm where
  "ex_svm_guest2 = \<lparr> svm_pasid = 7, svm_flags = {SVM_FLAG_GUEST_MODE}, svm_mm = None,
                      svm_devs = [ex_sdev2 7] \<rparr>"

definition ex_info :: device_domain_info where
  "ex_info = \<lparr> info_bus = 0, info_devfn = 0x10, info_pfsid = 0x10, info_ats_enabled = True,
                info_ats_qdep = 0, info_pri_enabled = True, info_iommu_did = 1,
                info_subdevices = [] \<rparr>"

definition ex_dsc :: "u64 \<Rightarrow> u64 \<Rightarrow> page_req_dsc" where
  "ex_dsc a b = \<lparr> qw_0 = a, qw_1 = b, priv_data = (0, 0) \<rparr>"

definition ex_env :: "page_req_dsc list \<Rightarrow> env" where
  "ex_env ring =
     \<lparr> prq = (\<lambda>tr i. if i < length ring then ring ! i else ex_dsc 0 0),
       dmar_readq = (\<lambda>tr r. if r = DMAR_PQT_REG then 32 * of_nat (length ring) else 0),
       readl = (\<lambda>tr r. 0),
       prq_size_page_order = 0,
       DMA_PRS_PPR = 1,
       DMA_PRS_PRO = 2,
       ioasid_find = (\<lambda>tr p. if p = 5 then SvmPtr ex_svm_host
                               else if p = 6 then SvmPtr ex_svm_guest1
                               else if p = 7 then SvmPtr ex_svm_guest2
                               else SvmErr (- 2)),
       get_domain_info = (\<lambda>d. if d = 1 then Some ex_info else None),
       pci_ats_queue_depth = (\<lambda>d. 0),
       dev_is_pci = (\<lambda>d. True),
       iommu_report_device_fault = (\<lambda>tr d ev. 0),
       VIRTUAL_MASK_SHIFT = 47,
       mmget_not_zero = (\<lambda>tr m. True),
       find_extend_vma = (\<lambda>tr m a. Some \<lparr> vm_start = 0, vm_flags = 7 \<rparr>),
       handle_mm_fault = (\<lambda>tr m v a f. 0),
       VM_FAULT_ERROR = 0x73,
       VM_READ = 1,
       VM_WRITE = 2,
       VM_EXEC = 4,
       device_to_iommu = (\<lambda>d. True),
       dmar_disabled = False,
       intel_svm_capable = True,
       pci_max_pasids = (\<lambda>d. 0x100000),
       ecap_srs = True,
       cpu_feature_la57 = False,
       intel_pasid_max_id = 0x100000,
       FLPT_DEFAULT_DID = 1,
       QI_DEV_EIOTLB_MAX_INVS = 32,
       PASID_DISABLED = 0,
       kzalloc_sdev = (\<lambda>tr. True),
       kzalloc_svm = (\<lambda>tr. Some 100),
       ioasid_pick = (\<lambda>tr lo hi. if lo \<le> 8 \<and> 8 \<le> hi then Some 8 else None),
       intel_iommu_enable_pasid = (\<lambda>tr d. 0),
       mmu_notifier_register = (\<lambda>tr m. 0),
       intel_pasid_setup_first_level = (\<lambda>tr d p. 0) \<rparr>"

text \<open>
  Descriptors, all with source-ID \<open>0x10\<close>, a read request and the last-in-group bit:
  for the host pasid 5 at a mapped address; for pasid 5 at the address \<open>2 ^ 47\<close>, which
  is not canonical; for the unallocated pasid 9; for the guest pasids 6 and 7; and one
  for pasid 5 without pasid_present.
\<close>

definition ex_req_host :: page_req_dsc where "ex_req_host = ex_dsc 0x500100100 0x7f000005"
definition ex_req_noncanon :: page_req_dsc where "ex_req_noncanon = ex_dsc 0x500100100 0x800000000005"
definition ex_req_unknown :: page_req_dsc where "ex_req_unknown = ex_dsc 0x900100100 0x7f000005"
definition ex_req_guest1 :: page_req_dsc where "ex_req_guest1 = ex_dsc 0x600100100 0x7f000005"
definition ex_req_guest2 :: page_req_dsc where "ex_req_guest2 = ex_dsc 0x700100100 0x7f000005"
definition ex_req_nopasid :: page_req_dsc where "ex_req_nopasid = ex_dsc 0x500100000 0x7f000005"

definition ex_st0 :: prq_state where
  "ex_st0 = \<lparr> svm = SvmNull, sdev = None, handled = False, trace = [] \<rparr>"

text \<open>The reader's state after the descriptor \<open>ex_req_host\<close>, handled from \<open>ex_st0\<close>.\<close>

definition ex_st_host :: prq_state where
  "ex_st_host =
     \<lparr> svm = SvmNull, sdev = None, handled = False,
       trace = [IoasidFind 5, MmgetNotZero 1, MmapReadLock 1, FindExtendVma 1 0x7f000000,
                HandleMmFault 1 \<lparr> vm_start = 0, vm_flags = 7 \<rparr> 0x7f000000
                  {FAULT_FLAG_USER, FAULT_FLAG_REMOTE},
                MmapReadUnlock 1, Mmput 1,
                QiSubmitSync
                  [QI_PGRP \<lparr> pg_pasid = 5, pg_did = 0x10, pg_pasid_p = True, pg_pdp = False,
                             pg_resp_code = QI_RESP_SUCCESS, pg_idx = 0, pg_lpig = True,
                             pg_private = (0, 0) \<rparr>]
                  QI_OPT_NONE] \<rparr>"

text \<open>The reader's state after the lookup of the binding of pasid 5 from \<open>ex_st0\<close>.\<close>

definition ex_st_found :: prq_state where
  "ex_st_found = \<lparr> svm = SvmPtr ex_svm_host, sdev = None, handled = False,
                    trace = [IoasidFind 5] \<rparr>"

text \<open>
  The reader's state after the guest-mode descriptor \<open>ex_req_guest1\<close>, handled from
  \<open>ex_st0\<close>: the fault sink accepted it, binding and device-binding stay cached.
\<close>

definition ex_st_guest :: prq_state where
  "ex_st_guest =
     \<lparr> svm = SvmPtr ex_svm_guest1, sdev = Some (ex_sdev1 6), handled = False,
       trace = [IoasidFind 6,
                ReportDeviceFault 1
                  \<lparr> prm_addr = 0x7f000000, prm_pasid = 6, prm_grpid = 0,
                    prm_perm = {IOMMU_FAULT_PERM_READ},
                    prm_flags = {IOMMU_FAULT_PAGE_REQUEST_LAST_PAGE,
                                 IOMMU_FAULT_PAGE_REQUEST_PASID_VALID,
                                 IOMMU_FAULT_PAGE_RESPONSE_NEEDS_PASID},
                    prm_private_data = (0, 0), ev_vector = 0 \<rparr> 0] \<rparr>"

subsection \<open>The PRQ drain: \<^verbatim>\<open>intel_svm_drain_prq\<close>\<close>

text \<open>
  The scan \<^verbatim>\<open>while (head != tail)\<close> of the software drain. It returns whether it met
  a descriptor with pasid_present and the drained pasid (the source then waits for the
  completion and jumps to \<^verbatim>\<open>prq_retry\<close>), and the trace.
\<close>

partial_function (option) drain_scan ::
  "env \<Rightarrow> u32 \<Rightarrow> u64 \<Rightarrow> event list \<Rightarrow> u64 \<Rightarrow> (bool \<times> event list) option" where
  "drain_scan e pid tail tr head =
     (if head \<noteq> tail then
        (let idx = unat head div 32;
             req = prq e tr idx;
             tr = tr @ [Fetch idx]
         in if \<not> pasid_present req \<or> pasid req \<noteq> pid
            then drain_scan e pid tail tr ((head + 32) AND PRQ_RING_MASK e)
            else Some (True, tr))
      else Some (False, tr))"

declare drain_scan.simps [code]

text \<open>From label \<^verbatim>\<open>prq_retry\<close> to the end of the software drain.\<close>

partial_function (option) drain_prq_retry :: "env \<Rightarrow> u32 \<Rightarrow> event list \<Rightarrow> event list option" where
  "drain_prq_retry e pid tr =
     (let tr = tr @ [ReinitCompletion];
          tail = dmar_readq e tr DMAR_PQT_REG AND PRQ_RING_MASK e;
          tr = tr @ [ReadQ DMAR_PQT_REG];
          head = dmar_readq e tr DMAR_PQH_REG AND PRQ_RING_MASK e;
          tr = tr @ [ReadQ DMAR_PQH_REG]
      in case drain_scan e pid tail tr head of
           None \<Rightarrow> None
         | Some (found, tr) \<Rightarrow>
             if found then drain_prq_retry e pid (tr @ [WaitForCompletion])
             else Some tr)"

declare drain_prq_retry.simps [code]

text \<open>From label \<^verbatim>\<open>qi_retry\<close> to the end: the hardware drain.\<close>

partial_function (option) drain_qi_retry ::
  "env \<Rightarrow> qi_desc list \<Rightarrow> event list \<Rightarrow> event list option" where
  "drain_qi_retry e desc tr =
     (let tr = tr @ [ReinitCompletion];
          tr = tr @ [QiSubmitSync desc QI_OPT_WAIT_DRAIN];
          prs = readl e tr DMAR_PRS_REG;
          tr = tr @ [ReadL DMAR_PRS_REG]
      in if prs AND DMA_PRS_PRO e \<noteq> 0
         then drain_qi_retry e desc (tr @ [WaitForCompletion])
         else Some tr)"

declare drain_qi_retry.simps [code]

definition drain_desc :: "env \<Rightarrow> dev \<Rightarrow> device_domain_info \<Rightarrow> u32 \<Rightarrow> qi_desc list" where
  "drain_desc e d info pid =
     (let sid = PCI_DEVID (info_bus info) (info_devfn info);
          did = info_iommu_did info;
          qdep = pci_ats_queue_depth e d
      in [QI_IWD_FENCED_STATUS,
          QI_EIOTLB_NONG_PASID pid did,
          QI_DEV_EIOTLB pid sid qdep (info_pfsid info)])"

definition intel_svm_drain_prq :: "env \<Rightarrow> dev \<Rightarrow> u32 \<Rightarrow> event list \<Rightarrow> event list option" where
  "intel_svm_drain_prq e d pid tr =
     (case get_domain_info e d of
        None \<Rightarrow> Some tr
      | Some info \<Rightarrow>
          if \<not> dev_is_pci e d then Some tr
          else if \<not> info_pri_enabled info then Some tr
          else
            (case drain_prq_retry e pid tr of
               None \<Rightarrow> None
             | Some tr \<Rightarrow> drain_qi_retry e (drain_desc e d info pid) tr))"

subsection \<open>The binding registry\<close>

text \<open>
  The registry: the list \<^verbatim>\<open>global_svm_list\<close> of bindings, the store of the allocated
  \<^verbatim>\<open>struct intel_svm\<close> objects (a binding is referred to by its address, from the list
  and from the private data of its PASID), the PASID allocator's table, and the
  registered address-space observers, the latest first. \<open>log\<close> is the trace.
\<close>

datatype ioasid_set = host_pasid_set | other_pasid_set nat

record ioasid_data =
  ioasid_owner :: ioasid_set
  ioasid_private :: "nat option"
  ioasid_refs :: nat

record svm_state =
  global_svm_list :: "nat list"
  svms :: "nat \<rightharpoonup> intel_svm"
  ioasids :: "u32 \<rightharpoonup> ioasid_data"
  notifiers :: "(nat \<times> mm) list"
  log :: "event list"

text \<open>What \<^verbatim>\<open>ioasid_find\<close> returns: \<^verbatim>\<open>NULL\<close>, an error pointer or the private data.\<close>

datatype ptr_ref = PtrNull | PtrErr int | Ptr nat

text \<open>
  Modelled from the spec: the PASID allocator (\<^verbatim>\<open>ioasid_alloc\<close>, \<^verbatim>\<open>ioasid_put\<close>,
  \<^verbatim>\<open>ioasid_find\<close>) and its constants are not in the source. \<open>alloc\<close> returns an
  identifier of the range that is not allocated, with the cookie as private data and one
  reference, or none; \<open>put\<close> drops a reference and frees the identifier with the last
  one; \<open>find\<close> returns the private data of an allocated identifier of the given set (of
  any set when the set is \<^verbatim>\<open>NULL\<close>) and an error pointer otherwise. PASIDs have 20 bits
  and 0 is reserved.
\<close>

definition ENOENT :: int where "ENOENT = 2"
definition EACCES :: int where "EACCES = 13"
definition INVALID_IOASID :: u32 where "INVALID_IOASID = - 1"
definition IOASID_ALLOC_BASE :: u32 where "IOASID_ALLOC_BASE = 1"
definition PASID_MAX :: u32 where "PASID_MAX = 0x100000"
definition PASID_RID2PASID :: u32 where "PASID_RID2PASID = 0"

definition ioasid_alloc ::
  "env \<Rightarrow> svm_state \<Rightarrow> ioasid_set \<Rightarrow> u32 \<Rightarrow> u32 \<Rightarrow> nat \<Rightarrow> u32 \<times> svm_state" where
  "ioasid_alloc e st owner lo hi priv =
     (case ioasid_pick e (log st) lo hi of
        None \<Rightarrow> (INVALID_IOASID, st)
      | Some p \<Rightarrow>
          if ioasids st p \<noteq> None \<or> p < lo \<or> hi < p \<or> p = INVALID_IOASID
          then (INVALID_IOASID, st)
          else (p, st\<lparr>ioasids := (ioasids st)
                   (p \<mapsto> \<lparr>ioasid_owner = owner, ioasid_private = Some priv, ioasid_refs = 1\<rparr>)\<rparr>))"

definition ioasid_put :: "svm_state \<Rightarrow> u32 \<Rightarrow> svm_state" where
  "ioasid_put st p =
     (case ioasids st p of
        None \<Rightarrow> st
      | Some d \<Rightarrow>
          if ioasid_refs d \<le> 1 then st\<lparr>ioasids := (ioasids st)(p := None)\<rparr>
          else st\<lparr>ioasids := (ioasids st)(p \<mapsto> d\<lparr>ioasid_refs := ioasid_refs d - 1\<rparr>)\<rparr>)"

definition registry_ioasid_find :: "svm_state \<Rightarrow> ioasid_set option \<Rightarrow> u32 \<Rightarrow> ptr_ref" where
  "registry_ioasid_find st owner p =
     (case ioasids st p of
        None \<Rightarrow> PtrErr (- ENOENT)
      | Some d \<Rightarrow>
          if owner \<noteq> None \<and> owner \<noteq> Some (ioasid_owner d) then PtrErr (- EACCES)
          else (case ioasid_private d of None \<Rightarrow> PtrNull | Some q \<Rightarrow> Ptr q))"

text \<open>
  A new binding object: the address the environment names, which is not the address of
  a live object.
\<close>

definition kzalloc_intel_svm :: "env \<Rightarrow> svm_state \<Rightarrow> nat option" where
  "kzalloc_intel_svm e st =
     (case kzalloc_svm e (log st) of
        None \<Rightarrow> None
      | Some q \<Rightarrow> if svms st q \<noteq> None \<or> q \<in> set (global_svm_list st) then None else Some q)"

text \<open>
  Writes through a pointer to a device-binding of a list, and its removal from the list:
  the device-binding is the first of the list for its device.
\<close>

fun update_first :: "('a \<Rightarrow> bool) \<Rightarrow> ('a \<Rightarrow> 'a) \<Rightarrow> 'a list \<Rightarrow> 'a list" where
  "update_first P f [] = []"
| "update_first P f (x # xs) = (if P x then f x # xs else x # update_first P f xs)"

fun remove_first :: "('a \<Rightarrow> bool) \<Rightarrow> 'a list \<Rightarrow> 'a list" where
  "remove_first P [] = []"
| "remove_first P (x # xs) = (if P x then xs else x # remove_first P xs)"

definition log_event :: "svm_state \<Rightarrow> event \<Rightarrow> svm_state" where
  "log_event st ev = st\<lparr>log := log st @ [ev]\<rparr>"

text \<open>
  \<^verbatim>\<open>pasid_to_svm_sdev\<close>; the caller holds the mutex. It returns the error code, the
  binding and the device-binding. Reading through a pointer to an object that is not in
  the store is a crash.
\<close>

definition pasid_to_svm_sdev ::
  "svm_state \<Rightarrow> dev \<Rightarrow> ioasid_set option \<Rightarrow> u32 \<Rightarrow>
     crash + (int \<times> nat option \<times> intel_svm_dev option)" where
  "pasid_to_svm_sdev st d owner p =
     (if p = INVALID_IOASID \<or> p \<ge> PASID_MAX then Inr (- EINVAL, None, None)
      else
        (case registry_ioasid_find st owner p of
           PtrErr err \<Rightarrow>
             if p = PASID_RID2PASID then Inr (0, None, None) else Inr (err, None, None)
         | PtrNull \<Rightarrow> Inr (0, None, None)
         | Ptr q \<Rightarrow>
            (case svms st q of
               None \<Rightarrow> Inl (BadDeref (log st))
             | Some s \<Rightarrow>
                 if svm_devs s = [] then Inr (- EINVAL, None, None)
                 else Inr (0, Some q, find (\<lambda>t. sdev_dev t = d) (svm_devs s)))))"

subsection \<open>Host-mode bind: \<^verbatim>\<open>intel_svm_bind_mm\<close>\<close>

text \<open>The first binding of \<^verbatim>\<open>global_svm_list\<close> for the address space.\<close>

fun find_svm_mm :: "(nat \<rightharpoonup> intel_svm) \<Rightarrow> mm option \<Rightarrow> nat list \<Rightarrow> unit + nat option" where
  "find_svm_mm h m [] = Inr None"
| "find_svm_mm h m (q # qs) =
     (case h q of
        None \<Rightarrow> Inl ()
      | Some s \<Rightarrow> if svm_mm s \<noteq> m then find_svm_mm h m qs else Inr (Some q))"

definition first_level_flags :: "env \<Rightarrow> mm option \<Rightarrow> pasid_flag set" where
  "first_level_flags e m =
     (if m = None then {PASID_FLAG_SUPERVISOR_MODE} else {}) \<union>
     (if cpu_feature_la57 e then {PASID_FLAG_FL5LP} else {})"

text \<open>The device-binding as set up before the binding is known.\<close>

definition new_sdev :: "env \<Rightarrow> dev \<Rightarrow> device_domain_info \<Rightarrow> intel_svm_dev" where
  "new_sdev e d info =
     \<lparr> sdev_dev = d,
       sdev_sid = PCI_DEVID (info_bus info) (info_devfn info),
       sdev_did = FLPT_DEFAULT_DID e,
       sdev_qdep = (if info_ats_enabled info
                    then (if info_ats_qdep info \<ge> QI_DEV_EIOTLB_MAX_INVS e then 0
                          else ucast (info_ats_qdep info))
                    else 0),
       sdev_dev_iotlb = info_ats_enabled info,
       sdev_users = 1,
       sdev_pasid = 0 \<rparr>"

text \<open>
  From \<^verbatim>\<open>list_add_rcu(&sdev->list, &svm->devs)\<close> on: the new device-binding goes to the
  head of the binding's list; at label \<^verbatim>\<open>success\<close> the device-binding gets the
  binding's pasid and is returned.
\<close>

definition bind_success ::
  "svm_state \<Rightarrow> nat \<Rightarrow> intel_svm \<Rightarrow> dev \<Rightarrow> crash + (int \<times> intel_svm_dev option \<times> svm_state)" where
  "bind_success st q s d =
     (let devs = update_first (\<lambda>t. sdev_dev t = d) (\<lambda>t. t\<lparr>sdev_pasid := svm_pasid s\<rparr>) (svm_devs s);
          st = st\<lparr>svms := (svms st)(q \<mapsto> s\<lparr>svm_devs := devs\<rparr>)\<rparr>
      in Inr (0, find (\<lambda>t. sdev_dev t = d) devs, st))"

definition bind_add_sdev ::
  "svm_state \<Rightarrow> nat \<Rightarrow> intel_svm \<Rightarrow> intel_svm_dev \<Rightarrow> dev \<Rightarrow>
     crash + (int \<times> intel_svm_dev option \<times> svm_state)" where
  "bind_add_sdev st q s sd d = bind_success st q (s\<lparr>svm_devs := sd # svm_devs s\<rparr>) d"

text \<open>The branch \<^verbatim>\<open>if (!svm)\<close>: a new binding with a new PASID.\<close>

definition bind_new_svm ::
  "env \<Rightarrow> svm_state \<Rightarrow> dev \<Rightarrow> svm_flag set \<Rightarrow> mm option \<Rightarrow> int \<Rightarrow> intel_svm_dev \<Rightarrow>
     crash + (int \<times> intel_svm_dev option \<times> svm_state)" where
  "bind_new_svm e st d flags m pasid_max sd =
     (case kzalloc_intel_svm e st of
        None \<Rightarrow> Inr (- ENOMEM, None, st)
      | Some q \<Rightarrow>
         (let pasid_max = (if pasid_max > intel_pasid_max_id e then intel_pasid_max_id e
                           else pasid_max);
              (p, st) = ioasid_alloc e st host_pasid_set IOASID_ALLOC_BASE
                          (of_int (pasid_max - 1)) q
          in if p = INVALID_IOASID then Inr (- ENOSPC, None, st)
             else
               (let s = \<lparr> svm_pasid = p, svm_flags = flags, svm_mm = m, svm_devs = [] \<rparr>;
                    reg = (case m of None \<Rightarrow> 0 | Some a \<Rightarrow> mmu_notifier_register e (log st) a)
                in if reg \<noteq> 0 then Inr (reg, None, ioasid_put st p)
                   else
                     (let st = (case m of None \<Rightarrow> st
                                | Some a \<Rightarrow> st\<lparr>notifiers := (q, a) # notifiers st\<rparr>);
                          ret = intel_pasid_setup_first_level e (log st) d p;
                          st = log_event st
                                 (SetupFirstLevel d m p (FLPT_DEFAULT_DID e) (first_level_flags e m))
                      in if ret \<noteq> 0 then
                           (let st = (case m of None \<Rightarrow> st
                                      | Some a \<Rightarrow> st\<lparr>notifiers := remove1 (q, a) (notifiers st)\<rparr>)
                            in Inr (ret, None, ioasid_put st p))
                         else
                           (let st = st\<lparr>global_svm_list := global_svm_list st @ [q]\<rparr>;
                                st = (case m of None \<Rightarrow> st | Some a \<Rightarrow> log_event st (LoadPasid a p))
                            in bind_add_sdev st q s sd d)))))"

text \<open>The branch for a new device of an existing binding.\<close>

definition bind_existing_svm ::
  "env \<Rightarrow> svm_state \<Rightarrow> dev \<Rightarrow> mm option \<Rightarrow> nat \<Rightarrow> intel_svm \<Rightarrow> intel_svm_dev \<Rightarrow>
     crash + (int \<times> intel_svm_dev option \<times> svm_state)" where
  "bind_existing_svm e st d m q s sd =
     (let ret = intel_pasid_setup_first_level e (log st) d (svm_pasid s);
          st = log_event st
                 (SetupFirstLevel d m (svm_pasid s) (FLPT_DEFAULT_DID e) (first_level_flags e m))
      in if ret \<noteq> 0 then Inr (ret, None, st)
         else bind_add_sdev st q s sd d)"

text \<open>
  From \<^verbatim>\<open>sdev = kzalloc(...)\<close> on, with the binding found for the address space, if
  any.
\<close>

definition bind_new_sdev ::
  "env \<Rightarrow> svm_state \<Rightarrow> dev \<Rightarrow> svm_flag set \<Rightarrow> mm option \<Rightarrow> int \<Rightarrow> (nat \<times> intel_svm) option \<Rightarrow>
     crash + (int \<times> intel_svm_dev option \<times> svm_state)" where
  "bind_new_sdev e st d flags m pasid_max found =
     (if \<not> kzalloc_sdev e (log st) then Inr (- ENOMEM, None, st)
      else
        (let ret = intel_iommu_enable_pasid e (log st) d;
             st = log_event st (EnablePasid d)
         in if ret \<noteq> 0 then Inr (ret, None, st)
            else
              (case get_domain_info e d of
                 None \<Rightarrow> Inl (BadDeref (log st))
               | Some info \<Rightarrow>
                  (let sd = new_sdev e d info
                   in case found of
                        None \<Rightarrow> bind_new_svm e st d flags m pasid_max sd
                      | Some (q, s) \<Rightarrow> bind_existing_svm e st d m q s sd))))"

definition intel_svm_bind_mm ::
  "env \<Rightarrow> svm_state \<Rightarrow> dev \<Rightarrow> svm_flag set \<Rightarrow> mm option \<Rightarrow>
     crash + (int \<times> intel_svm_dev option \<times> svm_state)" where
  "intel_svm_bind_mm e st d flags m =
     (if \<not> device_to_iommu e d \<or> dmar_disabled e then Inr (- EINVAL, None, st)
      else if \<not> intel_svm_capable e then Inr (- ENOTSUPP, None, st)
      else
        (let pasid_max = (if dev_is_pci e d then pci_max_pasids e d else 2 ^ 20)
         in if dev_is_pci e d \<and> pasid_max < 0 then Inr (- EINVAL, None, st)
            else if SVM_FLAG_SUPERVISOR_MODE \<in> flags \<and> (\<not> ecap_srs e \<or> m \<noteq> None)
            then Inr (- EINVAL, None, st)
            else
              (case find_svm_mm (svms st) m (global_svm_list st) of
                 Inl u \<Rightarrow> Inl (BadDeref (log st))
               | Inr None \<Rightarrow> bind_new_sdev e st d flags m pasid_max None
               | Inr (Some q) \<Rightarrow>
                  (case svms st q of
                     None \<Rightarrow> Inl (BadDeref (log st))
                   | Some s \<Rightarrow>
                       if svm_pasid s \<ge> of_int pasid_max then Inr (- ENOSPC, None, st)
                       else
                         (case find (\<lambda>t. sdev_dev t = d) (svm_devs s) of
                            Some sd \<Rightarrow>
                              bind_success st q
                                (s\<lparr>svm_devs := update_first (\<lambda>t. sdev_dev t = d)
                                     (\<lambda>t. t\<lparr>sdev_users := sdev_users t + 1\<rparr>) (svm_devs s)\<rparr>) d
                          | None \<Rightarrow> bind_new_sdev e st d flags m pasid_max (Some (q, s)))))))"

subsection \<open>Host-mode unbind: \<^verbatim>\<open>intel_svm_unbind_mm\<close>\<close>

text \<open>
  The branch \<^verbatim>\<open>if (list_empty(&svm->devs))\<close>: the PASID reference is dropped, the
  observer unregistered, the binding taken off the list and freed.
\<close>

definition unbind_free_svm :: "env \<Rightarrow> svm_state \<Rightarrow> nat \<Rightarrow> intel_svm \<Rightarrow> svm_state" where
  "unbind_free_svm e st q s =
     (let st = ioasid_put st (svm_pasid s);
          st = (case svm_mm s of
                  None \<Rightarrow> st
                | Some a \<Rightarrow>
                    log_event (st\<lparr>notifiers := remove1 (q, a) (notifiers st)\<rparr>)
                      (LoadPasid a (PASID_DISABLED e)));
          st = st\<lparr>global_svm_list := remove1 q (global_svm_list st)\<rparr>
      in st\<lparr>svms := (svms st)(q := None)\<rparr>)"

text \<open>
  \<^verbatim>\<open>intel_svm_unbind_mm\<close>. It returns when the drain does. The usage count is an
  \<^verbatim>\<open>int\<close>.
\<close>

definition intel_svm_unbind_mm ::
  "env \<Rightarrow> svm_state \<Rightarrow> dev \<Rightarrow> u32 \<Rightarrow> (crash + (int \<times> svm_state)) option" where
  "intel_svm_unbind_mm e st d p =
     (if \<not> device_to_iommu e d then Some (Inr (- EINVAL, st))
      else
        (case pasid_to_svm_sdev st d (Some host_pasid_set) p of
           Inl c \<Rightarrow> Some (Inl c)
         | Inr (ret, None, sdo) \<Rightarrow> Some (Inr (ret, st))
         | Inr (ret, Some q, None) \<Rightarrow> Some (Inr (ret, st))
         | Inr (ret, Some q, Some sd) \<Rightarrow>
            (case svms st q of
               None \<Rightarrow> Some (Inl (BadDeref (log st)))
             | Some s \<Rightarrow>
                (let users = sdev_users sd - 1;
                     s = s\<lparr>svm_devs := update_first (\<lambda>t. sdev_dev t = d)
                            (\<lambda>t. t\<lparr>sdev_users := users\<rparr>) (svm_devs s)\<rparr>;
                     st = st\<lparr>svms := (svms st)(q \<mapsto> s)\<rparr>
                 in if users \<noteq> 0 then Some (Inr (ret, st))
                    else
                      (let s = s\<lparr>svm_devs := remove_first (\<lambda>t. sdev_dev t = d) (svm_devs s)\<rparr>;
                           st = st\<lparr>svms := (svms st)(q \<mapsto> s)\<rparr>;
                           st = log_event st (TearDownEntry d (svm_pasid s) False False)
                       in case intel_svm_drain_prq e d (svm_pasid s) (log st) of
                            None \<Rightarrow> None
                          | Some tr \<Rightarrow>
                             (let st = log_event (st\<lparr>log := tr\<rparr>) (KfreeRcu d)
                              in if svm_devs s = []
                                 then Some (Inr (ret, unbind_free_svm e st q s))
                                 else Some (Inr (ret, st))))))))"

text \<open>
  \<^verbatim>\<open>intel_svm_bind\<close> and \<^verbatim>\<open>intel_svm_unbind\<close>, which take the mutex around the two
  functions above. The handle is the device-binding; unbind reads the device and the
  pasid from it.
\<close>

definition intel_svm_bind ::
  "env \<Rightarrow> svm_state \<Rightarrow> dev \<Rightarrow> mm option \<Rightarrow> svm_flag set \<Rightarrow>
     crash + (int \<times> intel_svm_dev option \<times> svm_state)" where
  "intel_svm_bind e st d m drvdata = intel_svm_bind_mm e st d drvdata m"

definition intel_svm_unbind ::
  "env \<Rightarrow> svm_state \<Rightarrow> intel_svm_dev \<Rightarrow> (crash + (int \<times> svm_state)) option" where
  "intel_svm_unbind e st sva = intel_svm_unbind_mm e st (sdev_dev sva) (sdev_pasid sva)"

subsection \<open>Vocabulary for the properties of the drain\<close>

text \<open>
  The ring offset after \<open>h\<close>, the offset \<open>k\<close> descriptors after \<open>head\<close>, and
  \<open>ring_span e head tail n\<close>: exactly \<open>n\<close> descriptors lie between \<open>head\<close> and
  \<open>tail\<close>. \<open>fetches e head n\<close> are the reads of these descriptors, in ring order.
\<close>

definition ring_next :: "env \<Rightarrow> u64 \<Rightarrow> u64" where
  "ring_next e h = (h + 32) AND PRQ_RING_MASK e"

definition ring_at :: "env \<Rightarrow> u64 \<Rightarrow> nat \<Rightarrow> u64" where
  "ring_at e head k = (ring_next e ^^ k) head"

definition ring_span :: "env \<Rightarrow> u64 \<Rightarrow> u64 \<Rightarrow> nat \<Rightarrow> bool" where
  "ring_span e head tail n \<longleftrightarrow> ring_at e head n = tail \<and> (\<forall>k<n. ring_at e head k \<noteq> tail)"

definition fetches :: "env \<Rightarrow> u64 \<Rightarrow> nat \<Rightarrow> event list" where
  "fetches e head n = map (\<lambda>k. Fetch (unat (ring_at e head k) div 32)) [0..<n]"

text \<open>A descriptor the drain of \<open>pid\<close> has to wait for.\<close>

definition drain_match :: "u32 \<Rightarrow> page_req_dsc \<Rightarrow> bool" where
  "drain_match pid req \<longleftrightarrow> pasid_present req \<and> pasid req = pid"

text \<open>
  A scan that starts with the trace \<open>tr\<close> reads every descriptor between \<open>head\<close> and
  \<open>tail\<close>, none of them (as read at its moment) is one to wait for, and the trace is
  then \<open>tr'\<close>.
\<close>

definition scan_clean :: "env \<Rightarrow> u32 \<Rightarrow> u64 \<Rightarrow> u64 \<Rightarrow> event list \<Rightarrow> event list \<Rightarrow> bool" where
  "scan_clean e pid head tail tr tr' \<longleftrightarrow>
     (\<exists>n. ring_span e head tail n \<and> tr' = tr @ fetches e head n \<and>
        (\<forall>k<n. \<not> drain_match pid
           (prq e (tr @ fetches e head k) (unat (ring_at e head k) div 32))))"

text \<open>
  A pass of the software drain that starts with the trace \<open>t0\<close>: it resets the
  completion, reads tail and head, and its scan between them is clean.
\<close>

definition drain_clean_pass :: "env \<Rightarrow> u32 \<Rightarrow> event list \<Rightarrow> event list \<Rightarrow> bool" where
  "drain_clean_pass e pid t0 t2 \<longleftrightarrow>
     (let t = t0 @ [ReinitCompletion];
          tail = dmar_readq e t DMAR_PQT_REG AND PRQ_RING_MASK e;
          t = t @ [ReadQ DMAR_PQT_REG];
          head = dmar_readq e t DMAR_PQH_REG AND PRQ_RING_MASK e;
          t = t @ [ReadQ DMAR_PQH_REG]
      in scan_clean e pid head tail t t2)"

text \<open>One round of the hardware drain: submit the batch, read the status register.\<close>

definition drain_batch :: "qi_desc list \<Rightarrow> event list" where
  "drain_batch desc =
     [ReinitCompletion, QiSubmitSync desc QI_OPT_WAIT_DRAIN, ReadL DMAR_PRS_REG]"

text \<open>
  A drain under load: the ring holds one descriptor for pasid 5; the head register
  reaches the tail once the drain has waited for the completion, and the status
  register shows pending responses until the drain has waited twice.
\<close>

definition ex_env_drain :: env where
  "ex_env_drain = (ex_env [ex_req_host])
     \<lparr> dmar_readq := (\<lambda>tr r. if r = DMAR_PQT_REG then 0x20
                              else if WaitForCompletion \<in> set tr then 0x20 else 0),
       readl := (\<lambda>tr r. if 2 \<le> length (filter (\<lambda>ev. ev = WaitForCompletion) tr)
                         then 0 else 2) \<rparr>"

definition ex_drain_trace :: "event list" where
  "ex_drain_trace =
     [ReinitCompletion, ReadQ DMAR_PQT_REG, ReadQ DMAR_PQH_REG, Fetch 0, WaitForCompletion,
      ReinitCompletion, ReadQ DMAR_PQT_REG, ReadQ DMAR_PQH_REG,
      ReinitCompletion,
      QiSubmitSync [QI_IWD_FENCED_STATUS, QI_EIOTLB_NONG_PASID 5 1, QI_DEV_EIOTLB 5 0x10 0 0x10]
        QI_OPT_WAIT_DRAIN,
      ReadL DMAR_PRS_REG, WaitForCompletion,
      ReinitCompletion,
      QiSubmitSync [QI_IWD_FENCED_STATUS, QI_EIOTLB_NONG_PASID 5 1, QI_DEV_EIOTLB 5 0x10 0 0x10]
        QI_OPT_WAIT_DRAIN,
      ReadL DMAR_PRS_REG]"

text \<open>The same IOMMU under the same load, with PRI not enabled on device 1.\<close>

definition ex_env_nopri :: env where
  "ex_env_nopri = ex_env_drain
     \<lparr> get_domain_info :=
         (\<lambda>d. if d = 1 then Some (ex_info\<lparr>info_pri_enabled := False\<rparr>) else None) \<rparr>"

subsection \<open>Vocabulary for the properties of the range flush\<close>

text \<open>
  What one sub-invalidation at address \<open>a\<close> of \<open>n\<close> pages queues for a
  device-binding: the PASID-scoped IOTLB flush and, when the device has ATS enabled, the
  device-TLB flush. \<open>dev_flushes e s sd s0 c k\<close> are \<open>k\<close> consecutive
  sub-invalidations of \<open>2 ^ c\<close> pages each, the first at the address \<open>s0\<close>.
\<close>

definition flush_events ::
  "env \<Rightarrow> intel_svm \<Rightarrow> intel_svm_dev \<Rightarrow> u64 \<Rightarrow> u64 \<Rightarrow> event list" where
  "flush_events e s sd a n =
     QiFlushPiotlb (sdev_did sd) (svm_pasid s) a n 0 #
     (case get_domain_info e (sdev_dev sd) of
        None \<Rightarrow> []
      | Some info \<Rightarrow>
          if info_ats_enabled info
          then [QiFlushDevIotlbPasid (sdev_sid sd) (info_pfsid info) (svm_pasid s) (sdev_qdep sd) a
                  (order_base_2 n)]
          else [])"

definition dev_flushes ::
  "env \<Rightarrow> intel_svm \<Rightarrow> intel_svm_dev \<Rightarrow> nat \<Rightarrow> nat \<Rightarrow> nat \<Rightarrow> event list" where
  "dev_flushes e s sd s0 c k =
     concat (map (\<lambda>i. flush_events e s sd (of_nat (s0 + i * (4096 * 2 ^ c))) (2 ^ c)) [0..<k])"

subsection \<open>Vocabulary for the properties of bind and unbind\<close>

text \<open>
  The registry proper: the state without the trace. A registry is well formed when every
  binding of \<^verbatim>\<open>global_svm_list\<close> is a live object with at least one device-binding,
  each with a usage count other than 0 and with the binding's pasid, and when the
  allocator's private data of the binding's pasid, in the host set, is that binding.
  The PASID limits of the platform and of a PCI device are positive and at most
  \<open>2 ^ 20\<close>.
\<close>

definition registry ::
  "svm_state \<Rightarrow> nat list \<times> (nat \<rightharpoonup> intel_svm) \<times> (u32 \<rightharpoonup> ioasid_data) \<times> (nat \<times> mm) list" where
  "registry st = (global_svm_list st, svms st, ioasids st, notifiers st)"



text \<open>
  A registry with one binding, at address 10: device 1 is bound to the address space 1
  under pasid 5. \<open>ex_reg_twice\<close> is that registry after a second bind of device 1 to
  the address space 1. \<open>ex_reg0\<close> is the empty registry, \<open>ex_reg1\<close> the registry
  after a first bind of device 1 to the address space 1 from it, with the pasid 8 and
  the new object 100 of the environment, and \<open>ex_reg2\<close> the state after the unbind.
\<close>

definition ex_reg_bound :: svm_state where
  "ex_reg_bound =
     \<lparr> global_svm_list = [10],
       svms = [10 \<mapsto> ex_svm_host],
       ioasids = [5 \<mapsto> \<lparr>ioasid_owner = host_pasid_set, ioasid_private = Some 10, ioasid_refs = 1\<rparr>],
       notifiers = [(10, 1)],
       log = [] \<rparr>"

definition ex_reg_twice :: svm_state where
  "ex_reg_twice =
     ex_reg_bound\<lparr>svms := [10 \<mapsto> ex_svm_host\<lparr>svm_devs := [(ex_sdev1 5)\<lparr>sdev_users := 2\<rparr>]\<rparr>]\<rparr>"




section \<open>Properties\<close>

subsection \<open>What one iteration of the PRQ reader adds to the trace\<close>

lemma is_resolution_other:
  "is_resolution ev \<Longrightarrow> \<not> is_response ev \<and> \<not> handed_off ev \<and> \<not> is_lookup ev"
  by (cases ev) auto

lemma resolution_filter:
  "\<forall>ev\<in>set evs. is_resolution ev \<Longrightarrow>
     filter is_response evs = [] \<and> (\<forall>ev\<in>set evs. \<not> handed_off ev)"
  by (auto simp add: filter_empty_conv dest: is_resolution_other)

lemma response_for_filter:
  "filter is_response (response_for req r) = response_for req r"
  "\<forall>ev\<in>set (response_for req r). \<not> handed_off ev"
  by (auto simp add: response_for_def)

lemma no_pasid_trace: "trace (no_pasid st req r) = trace st @ response_for req r"
  by (simp add: no_pasid_def response_for_def)

lemma no_pasid_cache: "svm (no_pasid st req r) = svm st" "sdev (no_pasid st req r) = sdev st"
  by (simp_all add: no_pasid_def)

lemma bad_req_trace: "trace (bad_req st req r) = trace st @ response_for req r"
  by (simp add: bad_req_def no_pasid_trace)

lemma prq_resolve_trace:
  "prq_resolve e tr m req a = (r, tr') \<Longrightarrow>
     \<exists>evs. tr' = tr @ evs \<and> (\<forall>ev\<in>set evs. is_resolution ev)"
  by (auto simp add: prq_resolve_def Let_def split: if_splits option.splits)

lemma prq_find_svm_trace:
  "prq_find_svm e st req = Inr st1 \<Longrightarrow>
     sdev st1 = sdev st \<and>
     (trace st1 = trace st \<or> trace st1 = trace st @ [IoasidFind (pasid req)])"
  by (auto simp add: prq_find_svm_def Let_def split: svm_ref.splits if_splits)

lemma prq_find_sdev_trace: "trace (prq_find_sdev st s req) = trace st"
  by (simp add: prq_find_sdev_def Let_def split: option.splits)

lemma report_trace:
  "intel_svm_prq_report e tr d req = Inr (ret, tr') \<Longrightarrow>
     (ret \<noteq> 0 \<and> (tr' = tr \<or> (\<exists>ev. tr' = tr @ [ReportDeviceFault d ev ret]))) \<or>
     (ret = 0 \<and> (\<exists>ev. tr' = tr @ [ReportDeviceFault d ev 0]))"
  by (auto simp add: intel_svm_prq_report_def Let_def ENODEV_def split: if_splits option.splits)

lemma prq_handle_shape:
  assumes "prq_handle e st req = Inr (st', result)"
  shows "take (length (trace st)) (trace st') = trace st \<and>
     filter is_response (new_events st st') =
       (if \<exists>ev\<in>set (new_events st st'). handed_off ev then [] else response_for req result)"
  using assms
  apply (simp add: prq_handle_def Let_def
      split: if_splits sum.splits svm_ref.splits option.splits prod.splits)
  apply (auto simp add: new_events_def no_pasid_trace bad_req_trace prq_find_sdev_trace
      response_for_filter
      dest!: prq_find_svm_trace prq_resolve_trace report_trace resolution_filter)
  done

lemma prq_handle_non_canonical:
  assumes "\<not> is_canonical_address e (push_bit VTD_PAGE_SHIFT (addr req))"
    and "prq_handle e st req = Inr (st', result)"
  shows "result = QI_RESP_INVALID \<and> (\<forall>ev\<in>set (new_events st st'). \<not> is_resolution ev)"
  using assms
  apply (simp add: prq_handle_def Let_def
      split: if_splits sum.splits svm_ref.splits option.splits prod.splits)
  apply (auto simp add: new_events_def no_pasid_trace bad_req_trace prq_find_sdev_trace
      response_for_def
      dest!: prq_find_svm_trace report_trace)
  done

text \<open>A response posted in an iteration is built from the descriptor and the computed code.\<close>

lemma prq_handle_responses:
  assumes "prq_handle e st req = Inr (st', result)"
    and "ev \<in> set (new_events st st')" and "is_response ev"
  shows "ev = QiSubmitSync [QI_PGRP
           \<lparr> pg_pasid = pasid req, pg_did = rid req, pg_pasid_p = pasid_present req,
             pg_pdp = priv_data_present req, pg_resp_code = result, pg_idx = prg_index req,
             pg_lpig = lpig req,
             pg_private = (if priv_data_present req then priv_data req else (0, 0)) \<rparr>]
           QI_OPT_NONE"
proof -
  from assms(2,3) have "ev \<in> set (filter is_response (new_events st st'))" by simp
  then show ?thesis
    using prq_handle_shape [OF assms(1)]
    by (simp add: response_for_def prq_response_def split: if_splits)
qed

text \<open>
  An iteration completes unless the cached binding is an error pointer or the descriptor
  is reported for a PCI device without domain info.
\<close>

lemma intel_svm_prq_report_completes:
  assumes "dev_is_pci e d \<longrightarrow> get_domain_info e d \<noteq> None"
  shows "intel_svm_prq_report e tr d req \<noteq> Inl c"
  using assms by (auto simp add: intel_svm_prq_report_def Let_def split: option.splits)

lemma prq_find_svm_completes:
  assumes "\<forall>err. svm st \<noteq> SvmErr err"
  shows "prq_find_svm e st req \<noteq> Inl c"
  using assms by (cases "svm st") (simp_all add: prq_find_svm_def Let_def)

lemma prq_handle_completes:
  assumes "\<forall>err. svm st \<noteq> SvmErr err"
    and "\<forall>d. dev_is_pci e d \<longrightarrow> get_domain_info e d \<noteq> None"
  shows "\<exists>st' result. prq_handle e st req = Inr (st', result)"
proof -
  have r: "\<And>tr d c. intel_svm_prq_report e tr d req \<noteq> Inl c"
    using assms(2) by (simp add: intel_svm_prq_report_completes)
  have f: "\<And>c. prq_find_svm e st req \<noteq> Inl c"
    using assms(1) by (rule prq_find_svm_completes)
  have "\<And>c. prq_handle e st req \<noteq> Inl c"
    by (simp add: prq_handle_def Let_def r f
        split: sum.split svm_ref.split option.split prod.split)
  then show ?thesis
    by (cases "prq_handle e st req") auto
qed

text \<open>
  The test of \<^verbatim>\<open>is_canonical_address\<close>, shifting left and arithmetically right by
  \<open>64 - (__VIRTUAL_MASK_SHIFT + 1)\<close>, is the sign extension of the address from bit
  \<open>__VIRTUAL_MASK_SHIFT\<close>.
\<close>

lemma canonical_sign_extend:
  assumes "VIRTUAL_MASK_SHIFT e < 64"
  shows "is_canonical_address e a \<longleftrightarrow> signed_take_bit (VIRTUAL_MASK_SHIFT e) a = a"
proof -
  define n where "n = VIRTUAL_MASK_SHIFT e"
  have "signed_drop_bit (64 - (n + 1)) (push_bit (64 - (n + 1)) a) = signed_take_bit n a"
  proof (rule bit_word_eqI)
    fix k assume "k < LENGTH(64)"
    then show "bit (signed_drop_bit (64 - (n + 1)) (push_bit (64 - (n + 1)) a)) k
        \<longleftrightarrow> bit (signed_take_bit n a) k"
      using assms unfolding n_def [symmetric]
      by (cases "k < n"; cases "k = n")
         (auto simp add: bit_signed_drop_bit_iff bit_push_bit_iff bit_signed_take_bit_iff
            min_def not_le not_less)
  qed
  then show ?thesis
    by (simp add: is_canonical_address_def n_def)
qed

subsection \<open>Malformed descriptors\<close>

text \<open>
  Claim C4. A descriptor without pasid_present, or with the privileged-mode bit and a
  read or write request, or with both the exec and the read request, goes straight to
  the response: the iteration ends with the response code INVALID, the cached binding
  and device-binding are untouched, and the only event it adds is the response (when
  the descriptor asks for one): no lookup of a binding, no fault resolution, no report.
\<close>

theorem prq_bad_request_invalid:
  assumes "\<not> pasid_present req \<or> (pm_req req \<and> (rd_req req \<or> wr_req req)) \<or>
           (exe_req req \<and> rd_req req)"
  shows "\<exists>st'. prq_handle e st req = Inr (st', QI_RESP_INVALID) \<and>
           svm st' = svm st \<and> sdev st' = sdev st \<and>
           trace st' = trace st @ response_for req QI_RESP_INVALID \<and>
           (\<forall>ev\<in>set (new_events st st').
              \<not> is_lookup ev \<and> \<not> is_resolution ev \<and> \<not> is_report ev)"
  using assms
  by (auto simp add: prq_handle_def Let_def no_pasid_trace no_pasid_cache new_events_def
      response_for_def)

theorem prq_bad_request_invalid_witness:
  "\<not> pasid_present ex_req_nopasid \<and>
   (\<exists>st'. prq_handle (ex_env []) ex_st0 ex_req_nopasid = Inr (st', QI_RESP_INVALID) \<and>
      svm st' = svm ex_st0 \<and> sdev st' = sdev ex_st0 \<and>
      trace st' = trace ex_st0 @ response_for ex_req_nopasid QI_RESP_INVALID \<and>
      (\<forall>ev\<in>set (new_events ex_st0 st').
         \<not> is_lookup ev \<and> \<not> is_resolution ev \<and> \<not> is_report ev))"
proof -
  have h: "\<not> pasid_present ex_req_nopasid"
    by (simp add: ex_req_nopasid_def ex_dsc_def pasid_present_def)
  from prq_bad_request_invalid [of ex_req_nopasid "ex_env []" ex_st0] h
  show ?thesis by blast
qed

subsection \<open>When a response is posted\<close>

text \<open>
  Claim C5. For a descriptor whose iteration completes (it does, by
  \<open>prq_handle_completes\<close>, unless the reader crashes on a cached error pointer or on a
  device without domain info): the events of the iteration hold a page-group response
  if and only if the descriptor has the last-in-group bit or the private-data-present
  bit and the iteration did not hand the descriptor to the external fault sink with
  success; there is at most one response; and a response carries the descriptor's pasid,
  source-ID, pasid_present, private-data-present, group index and last-in-group bit,
  the computed response code, and the descriptor's private data when private data is
  present (zeroes otherwise).
\<close>

theorem prq_response_iff:
  assumes "prq_handle e st req = Inr (st', result)"
  shows "trace st' = trace st @ new_events st st' \<and>
         ((\<exists>ev\<in>set (new_events st st'). is_response ev) \<longleftrightarrow>
            (lpig req \<or> priv_data_present req) \<and>
            \<not> (\<exists>ev\<in>set (new_events st st'). handed_off ev)) \<and>
         length (filter is_response (new_events st st')) \<le> 1 \<and>
         (\<forall>ev\<in>set (new_events st st'). is_response ev \<longrightarrow>
            ev = QiSubmitSync [QI_PGRP
                   \<lparr> pg_pasid = pasid req, pg_did = rid req, pg_pasid_p = pasid_present req,
                     pg_pdp = priv_data_present req, pg_resp_code = result,
                     pg_idx = prg_index req, pg_lpig = lpig req,
                     pg_private = (if priv_data_present req then priv_data req else (0, 0)) \<rparr>]
                   QI_OPT_NONE)"
proof -
  let ?new = "new_events st st'"
  from prq_handle_shape [OF assms]
  have pre: "take (length (trace st)) (trace st') = trace st"
    and flt: "filter is_response ?new =
       (if \<exists>ev\<in>set ?new. handed_off ev then [] else response_for req result)"
    by simp_all
  have a: "trace st' = trace st @ ?new"
    unfolding new_events_def using pre by (metis append_take_drop_id)
  have mem: "(\<exists>ev\<in>set ?new. is_response ev) \<longleftrightarrow> filter is_response ?new \<noteq> []"
    by (simp add: filter_empty_conv)
  have b: "(\<exists>ev\<in>set ?new. is_response ev) \<longleftrightarrow>
            (lpig req \<or> priv_data_present req) \<and> \<not> (\<exists>ev\<in>set ?new. handed_off ev)"
    unfolding mem flt by (simp add: response_for_def)
  have c: "length (filter is_response ?new) \<le> 1"
    unfolding flt by (simp add: response_for_def)
  have d: "\<forall>ev\<in>set ?new. is_response ev \<longrightarrow>
            ev = QiSubmitSync [QI_PGRP
                   \<lparr> pg_pasid = pasid req, pg_did = rid req, pg_pasid_p = pasid_present req,
                     pg_pdp = priv_data_present req, pg_resp_code = result,
                     pg_idx = prg_index req, pg_lpig = lpig req,
                     pg_private = (if priv_data_present req then priv_data req else (0, 0)) \<rparr>]
                   QI_OPT_NONE"
    using prq_handle_responses [OF assms] by blast
  from a b c d show ?thesis by blast
qed

theorem prq_response_iff_witness:
  "prq_handle (ex_env []) ex_st0 ex_req_host = Inr (ex_st_host, QI_RESP_SUCCESS) \<and>
   (\<exists>ev\<in>set (new_events ex_st0 ex_st_host). is_response ev) \<and>
   lpig ex_req_host \<and>
   \<not> (\<exists>ev\<in>set (new_events ex_st0 ex_st_host). handed_off ev) \<and>
   length (filter is_response (new_events ex_st0 ex_st_host)) \<le> 1 \<and>
   prq_handle (ex_env []) ex_st0 ex_req_guest1 = Inr (ex_st_guest, QI_RESP_INVALID) \<and>
   lpig ex_req_guest1 \<and>
   (\<exists>ev\<in>set (new_events ex_st0 ex_st_guest). handed_off ev) \<and>
   \<not> (\<exists>ev\<in>set (new_events ex_st0 ex_st_guest). is_response ev)"
proof -
  have h: "prq_handle (ex_env []) ex_st0 ex_req_host = Inr (ex_st_host, QI_RESP_SUCCESS)"
    by code_simp
  have l: "lpig ex_req_host"
    by (simp add: ex_req_host_def ex_dsc_def lpig_def)
  have n: "\<not> (\<exists>ev\<in>set (new_events ex_st0 ex_st_host). handed_off ev)"
    by code_simp
  have hg: "prq_handle (ex_env []) ex_st0 ex_req_guest1 = Inr (ex_st_guest, QI_RESP_INVALID)"
    by code_simp
  have lg: "lpig ex_req_guest1"
    by (simp add: ex_req_guest1_def ex_dsc_def lpig_def)
  have og: "\<exists>ev\<in>set (new_events ex_st0 ex_st_guest). handed_off ev"
    by code_simp
  from prq_response_iff [OF h] prq_response_iff [OF hg] h l n hg lg og
  show ?thesis by blast
qed

subsection \<open>Addresses that are not canonical\<close>

text \<open>
  Claim C6. Let the page address of a descriptor (the addr field shifted left by 12) be
  not canonical: sign-extending it from the bit of the virtual-address limit does not
  give the address back. Then no iteration for that descriptor ends with another
  response code than INVALID, posts a response with another code than INVALID, or
  performs a step of the fault resolution (the address space's fault handler is not
  called). And when the descriptor is well-formed and its binding is a host-mode binding
  with an address space, the iteration completes with code INVALID and adds to the
  trace, after the lookup, nothing when the descriptor asks for no response, and
  otherwise exactly the page-group response with the code INVALID and the fields of the
  descriptor.
\<close>

theorem prq_non_canonical_invalid:
  assumes "VIRTUAL_MASK_SHIFT e < 64"
    and "signed_take_bit (VIRTUAL_MASK_SHIFT e) (push_bit 12 (addr req)) \<noteq> push_bit 12 (addr req)"
  shows "(\<forall>st' result. prq_handle e st req = Inr (st', result) \<longrightarrow>
            result = QI_RESP_INVALID \<and>
            (\<forall>ev\<in>set (new_events st st'). \<not> is_resolution ev) \<and>
            (\<forall>r opt. QiSubmitSync [QI_PGRP r] opt \<in> set (new_events st st') \<longrightarrow>
               pg_resp_code r = QI_RESP_INVALID)) \<and>
         (\<forall>st1 s m. pasid_present req \<and> \<not> (pm_req req \<and> (rd_req req \<or> wr_req req)) \<and>
              \<not> (exe_req req \<and> rd_req req) \<and>
              prq_find_svm e st req = Inr st1 \<and> svm st1 = SvmPtr s \<and>
              SVM_FLAG_GUEST_MODE \<notin> svm_flags s \<and> svm_mm s = Some m \<longrightarrow>
            (\<exists>st'. prq_handle e st req = Inr (st', QI_RESP_INVALID) \<and>
                   trace st' = trace st1 @
                     (if lpig req \<or> priv_data_present req
                      then [QiSubmitSync [QI_PGRP
                              \<lparr> pg_pasid = pasid req, pg_did = rid req, pg_pasid_p = True,
                                pg_pdp = priv_data_present req,
                                pg_resp_code = QI_RESP_INVALID,
                                pg_idx = prg_index req, pg_lpig = lpig req,
                                pg_private = (if priv_data_present req then priv_data req
                                              else (0, 0)) \<rparr>]
                              QI_OPT_NONE]
                      else [])))"
proof -
  have nc: "\<not> is_canonical_address e (push_bit VTD_PAGE_SHIFT (addr req))"
    using assms by (simp add: canonical_sign_extend VTD_PAGE_SHIFT_def)
  have g: "\<forall>st' result. prq_handle e st req = Inr (st', result) \<longrightarrow>
            result = QI_RESP_INVALID \<and>
            (\<forall>ev\<in>set (new_events st st'). \<not> is_resolution ev) \<and>
            (\<forall>r opt. QiSubmitSync [QI_PGRP r] opt \<in> set (new_events st st') \<longrightarrow>
               pg_resp_code r = QI_RESP_INVALID)"
  proof (intro allI impI)
    fix st' result
    assume p: "prq_handle e st req = Inr (st', result)"
    from prq_handle_non_canonical [OF nc p]
    have i: "result = QI_RESP_INVALID" and n: "\<forall>ev\<in>set (new_events st st'). \<not> is_resolution ev"
      by simp_all
    have c: "\<forall>r opt. QiSubmitSync [QI_PGRP r] opt \<in> set (new_events st st') \<longrightarrow>
               pg_resp_code r = QI_RESP_INVALID"
    proof (intro allI impI)
      fix r opt
      assume m: "QiSubmitSync [QI_PGRP r] opt \<in> set (new_events st st')"
      from prq_handle_responses [OF p m] i
      show "pg_resp_code r = QI_RESP_INVALID" by simp
    qed
    from i n c show "result = QI_RESP_INVALID \<and>
            (\<forall>ev\<in>set (new_events st st'). \<not> is_resolution ev) \<and>
            (\<forall>r opt. QiSubmitSync [QI_PGRP r] opt \<in> set (new_events st st') \<longrightarrow>
               pg_resp_code r = QI_RESP_INVALID)"
      by blast
  qed
  have h: "\<forall>st1 s m. pasid_present req \<and> \<not> (pm_req req \<and> (rd_req req \<or> wr_req req)) \<and>
              \<not> (exe_req req \<and> rd_req req) \<and>
              prq_find_svm e st req = Inr st1 \<and> svm st1 = SvmPtr s \<and>
              SVM_FLAG_GUEST_MODE \<notin> svm_flags s \<and> svm_mm s = Some m \<longrightarrow>
            (\<exists>st'. prq_handle e st req = Inr (st', QI_RESP_INVALID) \<and>
                   trace st' = trace st1 @
                     (if lpig req \<or> priv_data_present req
                      then [QiSubmitSync [QI_PGRP
                              \<lparr> pg_pasid = pasid req, pg_did = rid req, pg_pasid_p = True,
                                pg_pdp = priv_data_present req,
                                pg_resp_code = QI_RESP_INVALID,
                                pg_idx = prg_index req, pg_lpig = lpig req,
                                pg_private = (if priv_data_present req then priv_data req
                                              else (0, 0)) \<rparr>]
                              QI_OPT_NONE]
                      else []))"
    using nc
    by (auto simp add: prq_handle_def Let_def bad_req_trace prq_find_sdev_trace
        response_for_def prq_response_def)
  from g h show ?thesis by blast
qed

theorem prq_non_canonical_invalid_witness:
  "VIRTUAL_MASK_SHIFT (ex_env []) < 64 \<and>
   signed_take_bit (VIRTUAL_MASK_SHIFT (ex_env [])) (push_bit 12 (addr ex_req_noncanon))
     \<noteq> push_bit 12 (addr ex_req_noncanon) \<and>
   prq_find_svm (ex_env []) ex_st0 ex_req_noncanon = Inr ex_st_found \<and>
   svm_mm ex_svm_host = Some 1 \<and>
   (\<exists>st'. prq_handle (ex_env []) ex_st0 ex_req_noncanon = Inr (st', QI_RESP_INVALID) \<and>
      trace st' =
        [IoasidFind 5,
         QiSubmitSync [QI_PGRP \<lparr> pg_pasid = 5, pg_did = 0x10, pg_pasid_p = True, pg_pdp = False,
                                 pg_resp_code = QI_RESP_INVALID, pg_idx = 0, pg_lpig = True,
                                 pg_private = (0, 0) \<rparr>]
           QI_OPT_NONE])"
proof -
  have h1: "VIRTUAL_MASK_SHIFT (ex_env []) < 64"
    by (simp add: ex_env_def)
  have h2: "signed_take_bit (VIRTUAL_MASK_SHIFT (ex_env [])) (push_bit 12 (addr ex_req_noncanon))
     \<noteq> push_bit 12 (addr ex_req_noncanon)"
    by (simp add: ex_env_def ex_req_noncanon_def ex_dsc_def addr_def)
  have v: "pasid_present ex_req_noncanon \<and>
      \<not> (pm_req ex_req_noncanon \<and> (rd_req ex_req_noncanon \<or> wr_req ex_req_noncanon)) \<and>
      \<not> (exe_req ex_req_noncanon \<and> rd_req ex_req_noncanon)"
    by (simp add: ex_req_noncanon_def ex_dsc_def pasid_present_def pm_req_def exe_req_def)
  have f: "prq_find_svm (ex_env []) ex_st0 ex_req_noncanon = Inr ex_st_found"
    by code_simp
  have s: "svm ex_st_found = SvmPtr ex_svm_host"
    "SVM_FLAG_GUEST_MODE \<notin> svm_flags ex_svm_host" "svm_mm ex_svm_host = Some 1"
    by (simp_all add: ex_st_found_def ex_svm_host_def)
  have d: "pasid ex_req_noncanon = 5" "rid ex_req_noncanon = 0x10"
    "prg_index ex_req_noncanon = 0" "lpig ex_req_noncanon"
    "\<not> priv_data_present ex_req_noncanon" "trace ex_st_found = [IoasidFind 5]"
    by code_simp+
  from prq_non_canonical_invalid [OF h1 h2, of ex_st0] v f s
  obtain st' where "prq_handle (ex_env []) ex_st0 ex_req_noncanon = Inr (st', QI_RESP_INVALID)"
    and "trace st' = trace ex_st_found @
           (if lpig ex_req_noncanon \<or> priv_data_present ex_req_noncanon
            then [QiSubmitSync [QI_PGRP
                    \<lparr> pg_pasid = pasid ex_req_noncanon, pg_did = rid ex_req_noncanon,
                      pg_pasid_p = True, pg_pdp = priv_data_present ex_req_noncanon,
                      pg_resp_code = QI_RESP_INVALID,
                      pg_idx = prg_index ex_req_noncanon, pg_lpig = lpig ex_req_noncanon,
                      pg_private = (if priv_data_present ex_req_noncanon
                                    then priv_data ex_req_noncanon else (0, 0)) \<rparr>]
                    QI_OPT_NONE]
            else [])"
    by blast
  with d have "\<exists>st'. prq_handle (ex_env []) ex_st0 ex_req_noncanon = Inr (st', QI_RESP_INVALID) \<and>
      trace st' =
        [IoasidFind 5,
         QiSubmitSync [QI_PGRP \<lparr> pg_pasid = 5, pg_did = 0x10, pg_pasid_p = True, pg_pdp = False,
                                 pg_resp_code = QI_RESP_INVALID, pg_idx = 0, pg_lpig = True,
                                 pg_private = (0, 0) \<rparr>]
           QI_OPT_NONE]"
    by simp
  with h1 h2 f s show ?thesis by blast
qed

subsection \<open>A failed lookup leaves an error pointer in the cache\<close>

text \<open>
  Claim C1, at a failing input. The ring holds two well-formed descriptors, the first for
  a pasid that is not allocated, the second for the bound pasid 5. For the first,
  \<^verbatim>\<open>ioasid_find\<close> returns an error pointer; the reader stores it in \<^verbatim>\<open>svm\<close> and jumps
  to \<^verbatim>\<open>no_pasid\<close>, which keeps it (only \<^verbatim>\<open>bad_req\<close> resets the cache). For the second,
  \<^verbatim>\<open>!svm\<close> is false and \<^verbatim>\<open>svm->pasid\<close> reads through the error pointer: the reader
  thread dies after fetching the second descriptor, before any lookup or response for it,
  and the head register is never written.
\<close>

theorem prq_event_thread_error_pointer:
  "prq_event_thread (ex_env [ex_req_unknown, ex_req_host]) [] =
     Some (Inl (BadDeref
       [WriteL DMAR_PRS_REG 1, ReadQ DMAR_PQT_REG, ReadQ DMAR_PQH_REG,
        Fetch 0, IoasidFind 9,
        QiSubmitSync [QI_PGRP (prq_response ex_req_unknown QI_RESP_INVALID)] QI_OPT_NONE,
        Fetch 1]))"
  by code_simp

subsection \<open>A cached device-binding outlives a change of binding\<close>

text \<open>
  Claim C10, at a failing input. The ring holds two guest-mode descriptors from the
  source-ID \<open>0x10\<close>: the first for pasid 6, whose binding has a device-binding with
  that source-ID, the second for pasid 7, whose binding has none. The first is handed to
  the fault sink and leaves binding and device-binding cached. For the second the
  binding is looked up again, but the cached device-binding is kept, since only its
  source-ID is compared: the descriptor is handed to the fault sink for device 1, and no
  INVALID response is posted although its last-in-group bit is set.
\<close>

theorem prq_event_thread_stale_sdev:
  "prq_event_thread (ex_env [ex_req_guest1, ex_req_guest2]) [] =
     Some (Inr
       ([WriteL DMAR_PRS_REG 1, ReadQ DMAR_PQT_REG, ReadQ DMAR_PQH_REG,
         Fetch 0, IoasidFind 6,
         ReportDeviceFault 1 (prq_fault_event ex_info ex_req_guest1) 0,
         Fetch 1, IoasidFind 7,
         ReportDeviceFault 1 (prq_fault_event ex_info ex_req_guest2) 0,
         WriteQ DMAR_PQH_REG 64, ReadL DMAR_PRS_REG, Complete], True)) \<and>
   ioasid_find (ex_env []) [] (pasid ex_req_guest2) = SvmPtr ex_svm_guest2 \<and>
   SVM_FLAG_GUEST_MODE \<in> svm_flags ex_svm_guest2 \<and>
   find (\<lambda>t. sdev_sid t = rid ex_req_guest2) (svm_devs ex_svm_guest2) = None \<and>
   lpig ex_req_guest2"
  by code_simp

subsection \<open>The software and the hardware drain\<close>

lemma ring_at_Suc: "ring_at e head (Suc k) = ring_at e ((head + 32) AND PRQ_RING_MASK e) k"
  by (simp add: ring_at_def funpow_swap1 ring_next_def)

lemma ring_at_0: "ring_at e head 0 = head"
  by (simp add: ring_at_def)

lemma fetches_Suc:
  "fetches e head (Suc n) = Fetch (unat head div 32) # fetches e ((head + 32) AND PRQ_RING_MASK e) n"
proof -
  have "[0..<Suc n] = 0 # map Suc [0..<n]"
    by (simp add: upt_conv_Cons map_Suc_upt del: upt_Suc)
  then show ?thesis
    by (simp add: fetches_def ring_at_Suc ring_at_0 comp_def del: upt_Suc)
qed

lemma scan_clean_step:
  assumes "head \<noteq> tail"
    and "\<not> drain_match pid (prq e tr (unat head div 32))"
    and "scan_clean e pid ((head + 32) AND PRQ_RING_MASK e) tail (tr @ [Fetch (unat head div 32)]) tr'"
  shows "scan_clean e pid head tail tr tr'"
proof -
  let ?h = "(head + 32) AND PRQ_RING_MASK e"
  from assms(3) obtain n where sp: "ring_span e ?h tail n"
    and tr': "tr' = (tr @ [Fetch (unat head div 32)]) @ fetches e ?h n"
    and cl: "\<forall>k<n. \<not> drain_match pid
         (prq e ((tr @ [Fetch (unat head div 32)]) @ fetches e ?h k) (unat (ring_at e ?h k) div 32))"
    unfolding scan_clean_def by blast
  have a: "ring_span e head tail (Suc n)"
    unfolding ring_span_def
  proof (intro conjI allI impI)
    show "ring_at e head (Suc n) = tail" using sp by (simp add: ring_span_def ring_at_Suc)
    fix k assume "k < Suc n"
    then show "ring_at e head k \<noteq> tail"
      using sp assms(1) by (cases k) (auto simp add: ring_span_def ring_at_Suc ring_at_0)
  qed
  have b: "tr' = tr @ fetches e head (Suc n)"
    using tr' by (simp add: fetches_Suc)
  have c: "\<forall>k<Suc n. \<not> drain_match pid (prq e (tr @ fetches e head k) (unat (ring_at e head k) div 32))"
  proof (intro allI impI)
    fix k assume k: "k < Suc n"
    show "\<not> drain_match pid (prq e (tr @ fetches e head k) (unat (ring_at e head k) div 32))"
    proof (cases k)
      case 0
      then show ?thesis using assms(2) by (simp add: fetches_def ring_at_0)
    next
      case (Suc j)
      then have "j < n" using k by simp
      with cl have "\<not> drain_match pid
         (prq e ((tr @ [Fetch (unat head div 32)]) @ fetches e ?h j) (unat (ring_at e ?h j) div 32))"
        by blast
      then show ?thesis using Suc by (simp add: fetches_Suc ring_at_Suc)
    qed
  qed
  from a b c show ?thesis unfolding scan_clean_def by blast
qed

lemma scan_clean_stop: "scan_clean e pid tail tail tr tr"
  unfolding scan_clean_def
  by (rule exI [of _ 0]) (simp add: ring_span_def ring_at_0 fetches_def)

lemma drain_scan_clean:
  assumes "drain_scan e pid tail tr head = Some y"
  shows "\<not> fst y \<longrightarrow> scan_clean e pid head tail tr (snd y)"
proof (rule drain_scan.raw_induct
    [where P = "\<lambda>e pid tail tr head y. \<not> fst y \<longrightarrow> scan_clean e pid head tail tr (snd y)",
      OF _ assms])
  fix f e pid tail tr head y
  assume IH: "\<And>e pid tail tr head y. f e pid tail tr head = Some y \<Longrightarrow>
      \<not> fst y \<longrightarrow> scan_clean e pid head tail tr (snd y)"
  assume body: "(if head \<noteq> tail
      then let idx = unat head div 32; req = prq e tr idx; tr = tr @ [Fetch idx]
           in if \<not> pasid_present req \<or> pasid req \<noteq> pid
              then f e pid tail tr ((head + 32) AND PRQ_RING_MASK e)
              else Some (True, tr)
      else Some (False, tr)) = Some y"
  show "\<not> fst y \<longrightarrow> scan_clean e pid head tail tr (snd y)"
  proof (cases "head = tail")
    case True
    with body show ?thesis by (auto intro: scan_clean_stop)
  next
    case False
    show ?thesis
    proof (cases "drain_match pid (prq e tr (unat head div 32))")
      case True
      with False body show ?thesis by (auto simp add: Let_def drain_match_def)
    next
      case nm: False
      with False body have
        "f e pid tail (tr @ [Fetch (unat head div 32)]) ((head + 32) AND PRQ_RING_MASK e) = Some y"
        by (auto simp add: Let_def drain_match_def split: if_splits)
      from IH [OF this] show ?thesis
        using scan_clean_step [OF False nm] by blast
    qed
  qed
qed

lemma drain_scan_extends:
  assumes "drain_scan e pid tail tr head = Some y"
  shows "\<exists>u. snd y = tr @ u"
proof (rule drain_scan.raw_induct
    [where P = "\<lambda>e pid tail tr head y. \<exists>u. snd y = tr @ u", OF _ assms])
  fix f :: "env \<Rightarrow> u32 \<Rightarrow> u64 \<Rightarrow> event list \<Rightarrow> u64 \<Rightarrow> (bool \<times> event list) option"
    and e pid tail tr head y
  assume IH: "\<And>e pid tail tr head y. f e pid tail tr head = Some y \<Longrightarrow> \<exists>u. snd y = tr @ u"
  assume body: "(if head \<noteq> tail
      then let idx = unat head div 32; req = prq e tr idx; tr = tr @ [Fetch idx]
           in if \<not> pasid_present req \<or> pasid req \<noteq> pid
              then f e pid tail tr ((head + 32) AND PRQ_RING_MASK e)
              else Some (True, tr)
      else Some (False, tr)) = Some y"
  show "\<exists>u. snd y = tr @ u"
  proof (cases "head \<noteq> tail \<and> (\<not> pasid_present (prq e tr (unat head div 32)) \<or>
      pasid (prq e tr (unat head div 32)) \<noteq> pid)")
    case True
    with body have
      "f e pid tail (tr @ [Fetch (unat head div 32)]) ((head + 32) AND PRQ_RING_MASK e) = Some y"
      by (auto simp add: Let_def split: if_splits)
    from IH [OF this] show ?thesis by auto
  next
    case False
    with body show ?thesis by (auto simp add: Let_def split: if_splits)
  qed
qed

lemma drain_prq_retry_clean:
  assumes "drain_prq_retry e pid tr = Some t2"
  shows "\<exists>t0. (t0 = tr \<or> (\<exists>t. t0 = tr @ t @ [WaitForCompletion])) \<and> drain_clean_pass e pid t0 t2"
proof (rule drain_prq_retry.raw_induct
    [where P = "\<lambda>e pid tr t2. \<exists>t0. (t0 = tr \<or> (\<exists>t. t0 = tr @ t @ [WaitForCompletion])) \<and>
        drain_clean_pass e pid t0 t2", OF _ assms])
  fix f e pid tr t2
  assume IH: "\<And>e pid tr t2. f e pid tr = Some t2 \<Longrightarrow>
      \<exists>t0. (t0 = tr \<or> (\<exists>t. t0 = tr @ t @ [WaitForCompletion])) \<and> drain_clean_pass e pid t0 t2"
  define t1 where "t1 = tr @ [ReinitCompletion]"
  define tail where "tail = dmar_readq e t1 DMAR_PQT_REG AND PRQ_RING_MASK e"
  define t1' where "t1' = t1 @ [ReadQ DMAR_PQT_REG]"
  define head where "head = dmar_readq e t1' DMAR_PQH_REG AND PRQ_RING_MASK e"
  define t1'' where "t1'' = t1' @ [ReadQ DMAR_PQH_REG]"
  assume "(let tr = tr @ [ReinitCompletion];
          tail = dmar_readq e tr DMAR_PQT_REG AND PRQ_RING_MASK e;
          tr = tr @ [ReadQ DMAR_PQT_REG];
          head = dmar_readq e tr DMAR_PQH_REG AND PRQ_RING_MASK e;
          tr = tr @ [ReadQ DMAR_PQH_REG]
      in case drain_scan e pid tail tr head of
           None \<Rightarrow> None
         | Some (found, tr) \<Rightarrow>
             if found then f e pid (tr @ [WaitForCompletion])
             else Some tr) = Some t2"
  then have body: "(case drain_scan e pid tail t1'' head of
           None \<Rightarrow> None
         | Some (found, tr) \<Rightarrow>
             if found then f e pid (tr @ [WaitForCompletion])
             else Some tr) = Some t2"
    by (simp add: Let_def t1_def tail_def t1'_def head_def t1''_def)
  then obtain found t where sc: "drain_scan e pid tail t1'' head = Some (found, t)"
    by (auto split: option.splits)
  show "\<exists>t0. (t0 = tr \<or> (\<exists>t. t0 = tr @ t @ [WaitForCompletion])) \<and> drain_clean_pass e pid t0 t2"
  proof (cases found)
    case False
    with body sc have "t2 = t" by simp
    moreover from drain_scan_clean [OF sc] False have "scan_clean e pid head tail t1'' t" by simp
    ultimately have "drain_clean_pass e pid tr t2"
      by (simp add: drain_clean_pass_def Let_def t1_def tail_def t1'_def head_def t1''_def)
    then show ?thesis by blast
  next
    case True
    with body sc have "f e pid (t @ [WaitForCompletion]) = Some t2" by simp
    from IH [OF this] obtain t0 where
      t0: "t0 = t @ [WaitForCompletion] \<or> (\<exists>u. t0 = (t @ [WaitForCompletion]) @ u @ [WaitForCompletion])"
      and cp: "drain_clean_pass e pid t0 t2" by blast
    have "\<exists>u. t = tr @ u"
      using drain_scan_extends [OF sc] by (auto simp add: t1''_def t1'_def t1_def)
    then obtain u where "t = tr @ u" by blast
    with t0 have "\<exists>t. t0 = tr @ t @ [WaitForCompletion]"
      by auto
    with cp show ?thesis by blast
  qed
qed


lemma drain_qi_retry_clear:
  assumes "drain_qi_retry e desc tr = Some tr'"
  shows "\<exists>m. tr' = tr @ concat (replicate m (drain_batch desc @ [WaitForCompletion])) @ drain_batch desc \<and>
           readl e (butlast tr') DMAR_PRS_REG AND DMA_PRS_PRO e = 0"
proof (rule drain_qi_retry.raw_induct
    [where P = "\<lambda>e desc tr tr'. \<exists>m. tr' = tr @ concat (replicate m (drain_batch desc @ [WaitForCompletion])) @ drain_batch desc \<and>
           readl e (butlast tr') DMAR_PRS_REG AND DMA_PRS_PRO e = 0", OF _ assms])
  fix f e desc tr tr'
  assume IH: "\<And>e desc tr tr'. f e desc tr = Some tr' \<Longrightarrow>
     \<exists>m. tr' = tr @ concat (replicate m (drain_batch desc @ [WaitForCompletion])) @ drain_batch desc \<and>
           readl e (butlast tr') DMAR_PRS_REG AND DMA_PRS_PRO e = 0"
  define t where "t = tr @ [ReinitCompletion, QiSubmitSync desc QI_OPT_WAIT_DRAIN]"
  assume "(let tr = tr @ [ReinitCompletion];
          tr = tr @ [QiSubmitSync desc QI_OPT_WAIT_DRAIN];
          prs = readl e tr DMAR_PRS_REG; tr = tr @ [ReadL DMAR_PRS_REG]
      in if prs AND DMA_PRS_PRO e \<noteq> 0
         then f e desc (tr @ [WaitForCompletion])
         else Some tr) = Some tr'"
  then have body: "(if readl e t DMAR_PRS_REG AND DMA_PRS_PRO e \<noteq> 0
         then f e desc (t @ [ReadL DMAR_PRS_REG, WaitForCompletion])
         else Some (t @ [ReadL DMAR_PRS_REG])) = Some tr'"
    by (simp add: Let_def t_def cong: if_cong)
  show "\<exists>m. tr' = tr @ concat (replicate m (drain_batch desc @ [WaitForCompletion])) @ drain_batch desc \<and>
           readl e (butlast tr') DMAR_PRS_REG AND DMA_PRS_PRO e = 0"
  proof (cases "readl e t DMAR_PRS_REG AND DMA_PRS_PRO e \<noteq> 0")
    case False
    with body have "tr' = t @ [ReadL DMAR_PRS_REG]" by simp
    with False have "tr' = tr @ concat (replicate 0 (drain_batch desc @ [WaitForCompletion])) @ drain_batch desc \<and>
           readl e (butlast tr') DMAR_PRS_REG AND DMA_PRS_PRO e = 0"
      by (simp add: t_def drain_batch_def butlast_append)
    then show ?thesis by blast
  next
    case True
    with body have "f e desc (t @ [ReadL DMAR_PRS_REG, WaitForCompletion]) = Some tr'" by simp
    from IH [OF this] obtain m where
      m: "tr' = (t @ [ReadL DMAR_PRS_REG, WaitForCompletion]) @
            concat (replicate m (drain_batch desc @ [WaitForCompletion])) @ drain_batch desc"
      and z: "readl e (butlast tr') DMAR_PRS_REG AND DMA_PRS_PRO e = 0" by blast
    from m have "tr' = tr @ concat (replicate (Suc m) (drain_batch desc @ [WaitForCompletion])) @ drain_batch desc"
      by (simp add: t_def drain_batch_def)
    with z show ?thesis by blast
  qed
qed

text \<open>
  Claim C2, as stated, fails. Device 1 is a PCI device with domain info on which PRI is
  not enabled. The ring holds, between head and tail, a descriptor with pasid_present
  for pasid 5, and the status register has the pending-response-outstanding bit set.
  The drain for device 1 and pasid 5 returns at once: it has scanned nothing, waited for
  nothing and submitted nothing.
\<close>

theorem drain_pri_disabled_counterexample:
  "get_domain_info ex_env_nopri 1 = Some (ex_info\<lparr>info_pri_enabled := False\<rparr>) \<and>
   dev_is_pci ex_env_nopri 1 \<and>
   intel_svm_drain_prq ex_env_nopri 1 5 [] = Some [] \<and>
   dmar_readq ex_env_nopri [] DMAR_PQH_REG AND PRQ_RING_MASK ex_env_nopri = 0 \<and>
   dmar_readq ex_env_nopri [] DMAR_PQT_REG AND PRQ_RING_MASK ex_env_nopri = 0x20 \<and>
   drain_match 5 (prq ex_env_nopri [] 0) \<and>
   readl ex_env_nopri [] DMAR_PRS_REG AND DMA_PRS_PRO ex_env_nopri \<noteq> 0"
proof -
  have i: "get_domain_info ex_env_nopri 1 = Some (ex_info\<lparr>info_pri_enabled := False\<rparr>)"
    "dev_is_pci ex_env_nopri 1"
    by (simp_all add: ex_env_nopri_def ex_env_drain_def ex_env_def)
  have r: "intel_svm_drain_prq ex_env_nopri 1 5 [] = Some []"
    "dmar_readq ex_env_nopri [] DMAR_PQH_REG AND PRQ_RING_MASK ex_env_nopri = 0"
    "dmar_readq ex_env_nopri [] DMAR_PQT_REG AND PRQ_RING_MASK ex_env_nopri = 0x20"
    "drain_match 5 (prq ex_env_nopri [] 0)"
    "readl ex_env_nopri [] DMAR_PRS_REG AND DMA_PRS_PRO ex_env_nopri \<noteq> 0"
    by code_simp+
  from i r show ?thesis by blast
qed

text \<open>
  Claim C2, amended. For a PRI-enabled PCI device with domain info, when the drain returns: its
  last pass of the software drain (the first pass, or one that follows a wait on the
  completion) read head and tail and found, between them, no descriptor with
  pasid_present and the drained pasid; after it came only rounds of the hardware drain,
  each submitting the batch of the three descriptors with the drain option and reading
  the status register, each but the last followed by a wait on the completion; and the
  last read of the status register had the pending-response-outstanding bit clear.
\<close>

theorem drain_returns_only_when:
  assumes "intel_svm_drain_prq e d pid tr = Some tr'"
    and "get_domain_info e d = Some info" and "dev_is_pci e d" and "info_pri_enabled info"
  shows "\<exists>t0 t2 m.
           (t0 = tr \<or> (\<exists>t. t0 = tr @ t @ [WaitForCompletion])) \<and>
           drain_clean_pass e pid t0 t2 \<and>
           tr' = t2 @ concat (replicate m (drain_batch (drain_desc e d info pid) @ [WaitForCompletion]))
                    @ drain_batch (drain_desc e d info pid) \<and>
           readl e (butlast tr') DMAR_PRS_REG AND DMA_PRS_PRO e = 0 \<and>
           drain_desc e d info pid =
             [QI_IWD_FENCED_STATUS,
              QI_EIOTLB_NONG_PASID pid (info_iommu_did info),
              QI_DEV_EIOTLB pid (PCI_DEVID (info_bus info) (info_devfn info))
                (pci_ats_queue_depth e d) (info_pfsid info)]"
proof -
  from assms obtain t2 where p1: "drain_prq_retry e pid tr = Some t2"
    and p2: "drain_qi_retry e (drain_desc e d info pid) t2 = Some tr'"
    by (auto simp add: intel_svm_drain_prq_def split: option.splits)
  have "drain_desc e d info pid =
             [QI_IWD_FENCED_STATUS,
              QI_EIOTLB_NONG_PASID pid (info_iommu_did info),
              QI_DEV_EIOTLB pid (PCI_DEVID (info_bus info) (info_devfn info))
                (pci_ats_queue_depth e d) (info_pfsid info)]"
    by (simp add: drain_desc_def)
  with drain_prq_retry_clean [OF p1] drain_qi_retry_clear [OF p2]
  show ?thesis by blast
qed

theorem drain_returns_only_when_witness:
  "intel_svm_drain_prq ex_env_drain 1 5 [] = Some ex_drain_trace \<and>
   get_domain_info ex_env_drain 1 = Some ex_info \<and> dev_is_pci ex_env_drain 1 \<and>
   info_pri_enabled ex_info \<and>
   (\<exists>t0 t2 m.
      (t0 = [] \<or> (\<exists>t. t0 = [] @ t @ [WaitForCompletion])) \<and>
      drain_clean_pass ex_env_drain 5 t0 t2 \<and>
      ex_drain_trace =
        t2 @ concat (replicate m (drain_batch (drain_desc ex_env_drain 1 ex_info 5) @ [WaitForCompletion]))
           @ drain_batch (drain_desc ex_env_drain 1 ex_info 5) \<and>
      readl ex_env_drain (butlast ex_drain_trace) DMAR_PRS_REG AND DMA_PRS_PRO ex_env_drain = 0)"
proof -
  have h: "intel_svm_drain_prq ex_env_drain 1 5 [] = Some ex_drain_trace"
    by code_simp
  have i: "get_domain_info ex_env_drain 1 = Some ex_info" "dev_is_pci ex_env_drain 1"
    "info_pri_enabled ex_info"
    by (simp_all add: ex_env_drain_def ex_env_def ex_info_def)
  from drain_returns_only_when [OF h i] h i show ?thesis by blast
qed

subsection \<open>Devices the drain skips\<close>

text \<open>
  Claim C9. When the device has no domain info, or is not a PCI device, or has PRI not
  enabled, the drain returns at once with the trace unchanged: it reads no register
  and no descriptor, waits for nothing and submits nothing, whatever the ring and the
  status register hold.
\<close>

theorem drain_skipped:
  assumes "get_domain_info e d = None \<or> \<not> dev_is_pci e d \<or>
           (\<exists>info. get_domain_info e d = Some info \<and> \<not> info_pri_enabled info)"
  shows "intel_svm_drain_prq e d pid tr = Some tr"
  using assms by (auto simp add: intel_svm_drain_prq_def split: option.splits)

theorem drain_skipped_witness:
  "get_domain_info ex_env_drain 2 = None \<and>
   intel_svm_drain_prq ex_env_drain 2 5 [] = Some [] \<and>
   drain_match 5 (prq ex_env_drain [] 0) \<and>
   dmar_readq ex_env_drain [] DMAR_PQH_REG \<noteq> dmar_readq ex_env_drain [] DMAR_PQT_REG \<and>
   readl ex_env_drain [] DMAR_PRS_REG AND DMA_PRS_PRO ex_env_drain \<noteq> 0"
proof -
  have n: "get_domain_info ex_env_drain 2 = None"
    by (simp add: ex_env_drain_def ex_env_def)
  have r: "drain_match 5 (prq ex_env_drain [] 0)"
    "dmar_readq ex_env_drain [] DMAR_PQH_REG \<noteq> dmar_readq ex_env_drain [] DMAR_PQT_REG"
    "readl ex_env_drain [] DMAR_PRS_REG AND DMA_PRS_PRO ex_env_drain \<noteq> 0"
    by code_simp+
  from drain_skipped [of ex_env_drain 2 5 "[]"] n r show ?thesis by blast
qed

subsection \<open>The flushes of an invalidated range\<close>

lemma fls_upper: "n < 2 ^ fls n"
proof (induction n rule: fls.induct)
  case (1 n)
  show ?case
  proof (cases "n = 0")
    case True
    then show ?thesis by (simp add: fls.simps)
  next
    case False
    with 1 have "n div 2 < 2 ^ fls (n div 2)" by simp
    then have "n < 2 * 2 ^ fls (n div 2)" by linarith
    with False show ?thesis by (subst fls.simps) simp
  qed
qed

lemma fls_lower: "n \<noteq> 0 \<Longrightarrow> 2 ^ (fls n - 1) \<le> n"
proof (induction n rule: fls.induct)
  case (1 n)
  show ?case
  proof (cases "n div 2 = 0")
    case True
    with 1(2) have "n = 1" by linarith
    then show ?thesis by (simp add: fls.simps)
  next
    case False
    with 1 have ih: "2 ^ (fls (n div 2) - 1) \<le> n div 2" by simp
    from False have "fls (n div 2) \<noteq> 0" by (subst fls.simps) simp
    then have "fls n - 1 = Suc (fls (n div 2) - 1)"
      using 1(2) by (subst fls.simps) simp
    with ih show ?thesis by simp
  qed
qed

lemma fls_power: "fls (2 ^ c) = Suc c"
proof (induction c)
  case 0
  show ?case by (simp add: fls.simps)
next
  case (Suc c)
  then show ?case by (subst fls.simps) simp
qed

lemma fls_mono_bound: "n < 2 ^ k \<Longrightarrow> fls n \<le> k"
proof (rule ccontr)
  assume a: "n < 2 ^ k" and "\<not> fls n \<le> k"
  moreover have "fls 0 = 0" by (simp add: fls.simps)
  ultimately have k: "k \<le> fls n - 1" and nz: "n \<noteq> 0" by (auto intro: ccontr)
  have "(2::nat) ^ k \<le> 2 ^ (fls n - 1)" using k by (simp add: power_increasing)
  also have "\<dots> \<le> n" using fls_lower [OF nz] .
  finally show False using a by simp
qed

lemma unat_pow2:
  assumes "n < 64"
  shows "unat ((2::u64) ^ n) = 2 ^ n"
proof -
  have "(2::u64) ^ n = push_bit n 1" by (simp add: push_bit_eq_mult)
  then have "unat ((2::u64) ^ n) = take_bit 64 (push_bit n (unat (1::u64)))"
    by (simp only: unsigned_push_bit_eq) simp
  also have "\<dots> = take_bit 64 ((2::nat) ^ n)" by (simp add: push_bit_eq_mult)
  also have "\<dots> = 2 ^ n" using assms by (simp add: take_bit_nat_eq_self)
  finally show ?thesis .
qed

lemma align_down_word:
  fixes x :: u64
  assumes "n < 64"
  shows "unat (x AND NOT (2 ^ n - 1)) = unat x div 2 ^ n * 2 ^ n"
proof -
  have "x AND NOT (2 ^ n - 1) = push_bit n (drop_bit n x)"
    by (rule bit_word_eqI)
       (auto simp add: bit_simps simp flip: mask_eq_exp_minus_1)
  moreover have "unat (push_bit n (drop_bit n x)) = unat x div 2 ^ n * 2 ^ n"
  proof -
    have "push_bit n (drop_bit n (unat x)) \<le> unat x"
      by (simp add: push_bit_eq_mult drop_bit_eq_div)
    also have "\<dots> < 2 ^ 64" using unsigned_less [of x] by simp
    finally have t: "take_bit 64 (push_bit n (drop_bit n (unat x))) = push_bit n (drop_bit n (unat x))"
      by (simp add: take_bit_nat_eq_self)
    have "unat (push_bit n (drop_bit n x)) = take_bit 64 (push_bit n (unat (drop_bit n x)))"
      by (simp only: unsigned_push_bit_eq) simp
    also have "\<dots> = take_bit 64 (push_bit n (drop_bit n (unat x)))"
      by (simp only: unat_drop_bit_eq)
    also have "\<dots> = unat x div 2 ^ n * 2 ^ n"
      unfolding t by (simp add: push_bit_eq_mult drop_bit_eq_div)
    finally show ?thesis .
  qed
  ultimately show ?thesis by simp
qed

lemma align_up_word:
  fixes x :: u64
  assumes "n < 64" and "unat x + 2 ^ n \<le> 2 ^ 64"
  shows "unat ((x + (2 ^ n - 1)) AND NOT (2 ^ n - 1)) = (unat x + 2 ^ n - 1) div 2 ^ n * 2 ^ n"
proof -
  have p: "unat ((2::u64) ^ n) = 2 ^ n" using assms(1) by (rule unat_pow2)
  have "unat ((2::u64) ^ n - 1) = 2 ^ n - 1"
    using assms(1) by (simp add: unat_minus_one p)
  moreover have "unat x + (2 ^ n - 1) < 2 ^ 64" using assms(2)
  proof -
    have "(0::nat) < 2 ^ n" by simp
    with assms(2) show ?thesis by linarith
  qed
  ultimately have "unat (x + (2 ^ n - 1)) = unat x + 2 ^ n - 1"
    by (simp add: unat_add_lem [THEN iffD1])
  then show ?thesis using align_down_word [OF assms(1), of "x + (2 ^ n - 1)"] by simp
qed



lemma flush_svm_range_dev_info:
  assumes "get_domain_info e (sdev_dev sd) = Some info" and "n \<noteq> 0"
  shows "flush_svm_range_dev e s sd a n 0 tr = Inr (tr @ flush_events e s sd a n)"
  using assms by (simp add: flush_svm_range_dev_def flush_events_def)

lemma flush_loop_run:
  assumes info: "get_domain_info e (sdev_dev sd) = Some info"
    and al: "unat align = 4096 * 2 ^ c" and n: "drop_bit VTD_PAGE_SHIFT align = 2 ^ c"
    and nz: "(2::u64) ^ c \<noteq> 0"
  shows "s0 + k * (4096 * 2 ^ c) = e0 \<Longrightarrow> e0 < 2 ^ 64 \<Longrightarrow>
     flush_loop e s sd align 0 (of_nat e0) tr (of_nat s0) =
       Some (Inr (tr @ dev_flushes e s sd s0 c k))"
proof (induction k arbitrary: s0 tr)
  case 0
  then show ?case
    by (subst flush_loop.simps) (simp add: dev_flushes_def)
next
  case (Suc k)
  let ?A = "4096 * 2 ^ c :: nat"
  define A :: nat where "A = 4096 * 2 ^ c"
  have "0 < A" by (simp add: A_def)
  moreover have "s0 + (A + k * A) = e0" using Suc.prems(1) by (simp add: A_def)
  ultimately have lt: "s0 < e0" by linarith
  then have wlt: "(of_nat s0 :: u64) < of_nat e0"
    using Suc.prems(2) by (simp add: word_of_nat_less_iff take_bit_nat_eq_self)
  have step: "(of_nat s0 :: u64) + align = of_nat (s0 + ?A)"
  proof -
    have "align = of_nat (unat align)" by simp
    then have "align = of_nat ?A" using al by simp
    then show ?thesis by simp
  qed
  have "s0 + ?A + k * ?A = e0" using Suc.prems(1) by simp
  from Suc.IH [OF this Suc.prems(2)]
  have ih: "flush_loop e s sd align 0 (of_nat e0) (tr @ flush_events e s sd (of_nat s0) (2 ^ c))
       (of_nat (s0 + ?A)) =
     Some (Inr ((tr @ flush_events e s sd (of_nat s0) (2 ^ c)) @ dev_flushes e s sd (s0 + ?A) c k))" .
  have up: "[0..<Suc k] = 0 # map Suc [0..<k]"
    by (simp add: upt_conv_Cons map_Suc_upt del: upt_Suc)
  have df: "dev_flushes e s sd s0 c (Suc k) =
      flush_events e s sd (of_nat s0) (2 ^ c) @ dev_flushes e s sd (s0 + ?A) c k"
    unfolding dev_flushes_def up by (simp add: comp_def algebra_simps del: upt_Suc)
  show ?case
    apply (subst flush_loop.simps)
    apply (simp only: wlt if_True n flush_svm_range_dev_info [OF info nz] sum.case step ih df)
    apply simp
    done
qed


lemma range_pages_word:
  fixes start end' :: u64
  assumes lt: "start < end'" and bound: "unat end' \<le> 2 ^ 62"
  shows "unat (drop_bit VTD_PAGE_SHIFT (end' - start + PAGE_SIZE - 1))
           = (unat end' - unat start + 4095) div 4096"
proof -
  have d: "unat (end' - start) = unat end' - unat start"
    using lt by (simp add: unat_sub)
  have w: "end' - start + PAGE_SIZE - 1 = (end' - start) + 4095"
    by (simp add: PAGE_SIZE_def)
  have "unat ((end' - start) + 4095) = unat (end' - start) + unat (4095 :: u64)"
    using d bound by (intro unat_add_lem [THEN iffD1]) simp
  then have "unat (end' - start + PAGE_SIZE - 1) = unat end' - unat start + 4095"
    unfolding w using d by simp
  moreover have "unat (drop_bit 12 (end' - start + PAGE_SIZE - 1))
      = drop_bit 12 (unat (end' - start + PAGE_SIZE - 1))"
    by (rule unat_drop_bit_eq)
  ultimately show ?thesis
    by (simp only: VTD_PAGE_SHIFT_def drop_bit_eq_div) simp
qed

lemma range_flush_dev:
  fixes start end' :: u64
  assumes lt: "start < end'" and bound: "unat end' \<le> 2 ^ 62"
    and info: "get_domain_info e (sdev_dev sd) = Some info"
  defines "P \<equiv> (unat end' - unat start + 4095) div 4096"
  defines "c \<equiv> fls (P - 1)"
  defines "A \<equiv> 4096 * 2 ^ c"
  defines "s0 \<equiv> unat start div A * A"
  defines "e0 \<equiv> (unat start + P * 4096 + A - 1) div A * A"
  shows "intel_flush_svm_range_dev e s sd start
           (drop_bit VTD_PAGE_SHIFT (end' - start + PAGE_SIZE - 1)) 0 tr =
         Some (Inr (tr @ dev_flushes e s sd s0 c ((e0 - s0) div A)))"
    and "s0 + (e0 - s0) div A * A = e0" and "e0 < 2 ^ 64"
proof -
  let ?S = "unat start" and ?E = "unat end'"
  define pages where "pages = drop_bit VTD_PAGE_SHIFT (end' - start + PAGE_SIZE - 1)"
  have SE: "?S < ?E" using lt by (simp add: word_less_nat_alt)
  have up: "unat pages = P"
    unfolding pages_def P_def by (rule range_pages_word [OF lt bound])
  have P1: "1 \<le> P" using SE unfolding P_def by simp
  have "?E - ?S + 4095 < 4096 * 2 ^ 50 + 4096" using bound by simp
  then have P50: "P \<le> 2 ^ 50" unfolding P_def by simp
  have P4: "P * 4096 \<le> ?E - ?S + 4095" unfolding P_def by simp
  have pnz: "pages \<noteq> 0" using up P1 by (metis not_one_le_zero unat_0)
  have upm: "unat (pages - 1) = P - 1" using pnz up by (simp add: unat_minus_one)
  have "P - 1 < 2 ^ 50" using P50 P1 by simp
  then have c50: "c \<le> 50" unfolding c_def by (rule fls_mono_bound)
  have rp: "roundup_pow_of_two pages = 2 ^ c"
    by (simp add: roundup_pow_of_two_def fls_long_def upm c_def push_bit_eq_mult)
  have u2c: "unat ((2::u64) ^ c) = 2 ^ c" using c50 by (intro unat_pow2) simp
  have sh: "ilog2 (roundup_pow_of_two pages) = c"
    by (simp add: rp ilog2_def fls_long_def u2c fls_power)
  define align :: u64 where "align = push_bit (VTD_PAGE_SHIFT + c) 1"
  have al2: "align = 2 ^ (12 + c)" by (simp add: align_def VTD_PAGE_SHIFT_def push_bit_eq_mult)
  have A2: "A = 2 ^ (12 + c)" by (simp add: A_def power_add)
  have n64: "12 + c < 64" using c50 by simp
  have ual: "unat align = A" unfolding al2 A2 using n64 by (rule unat_pow2)
  have "(2::nat) ^ (12 + c) \<le> 2 ^ 62" using c50 by (intro power_increasing) simp_all
  then have A62: "A \<le> 2 ^ 62" by (simp add: A2)
  have Apos: "0 < A" by (simp add: A_def)
  have st: "unat (ALIGN_DOWN start align) = s0"
    unfolding ALIGN_DOWN_def al2 s0_def A2 using n64 by (rule align_down_word)
  have upp: "unat (push_bit VTD_PAGE_SHIFT pages) = P * 4096"
  proof -
    have "P * 4096 < 2 ^ 64" using P4 bound SE by simp
    then have "take_bit 64 (push_bit 12 P) = P * 4096"
      by (simp add: take_bit_nat_eq_self push_bit_eq_mult)
    moreover have "unat (push_bit 12 pages) = take_bit 64 (push_bit 12 (unat pages))"
      by (simp only: unsigned_push_bit_eq) simp
    ultimately show ?thesis by (simp add: up VTD_PAGE_SHIFT_def)
  qed
  have ux: "unat (start + push_bit VTD_PAGE_SHIFT pages) = ?S + P * 4096"
  proof -
    have "?S + P * 4096 < 2 ^ 64" using P4 bound SE by simp
    then show ?thesis using upp by (simp add: unat_add_lem [THEN iffD1])
  qed
  have xb: "?S + P * 4096 + A \<le> 2 ^ 64" using P4 bound SE A62 by simp
  have en: "unat (ALIGN (start + push_bit VTD_PAGE_SHIFT pages) align) = e0"
    unfolding ALIGN_def al2 e0_def A2 ux [symmetric]
    using n64 xb unfolding A2 ux [symmetric] by (rule align_up_word)
  have "e0 \<le> ?S + P * 4096 + A - 1"
    unfolding e0_def by simp
  also have "\<dots> < 2 ^ 64" using xb Apos by simp
  finally show e64: "e0 < 2 ^ 64" .
  have "unat start div A \<le> (unat start + P * 4096 + A - 1) div A"
    using Apos by (intro div_le_mono) simp
  then have le: "s0 \<le> e0" unfolding s0_def e0_def by simp
  have "A dvd e0 - s0" unfolding s0_def e0_def by (simp add: dvd_diff_nat)
  then have "(e0 - s0) div A * A = e0 - s0" by simp
  with le show sk: "s0 + (e0 - s0) div A * A = e0" by simp
  have dr: "drop_bit VTD_PAGE_SHIFT align = 2 ^ c"
  proof -
    have "drop_bit 12 (push_bit (12 + c) (1::u64)) = push_bit c 1"
      using n64 by (intro bit_word_eqI) (auto simp add: bit_simps)
    moreover have "push_bit c (1::u64) = 2 ^ c" by (simp add: push_bit_eq_mult)
    ultimately show ?thesis by (simp only: align_def VTD_PAGE_SHIFT_def)
  qed
  have nz: "(2::u64) ^ c \<noteq> 0" using u2c by (metis power_not_zero unat_0 zero_neq_numeral)
  have "flush_loop e s sd align 0 (of_nat e0) tr (of_nat s0) =
      Some (Inr (tr @ dev_flushes e s sd s0 c ((e0 - s0) div A)))"
    using sk e64 unfolding A_def
    by (intro flush_loop_run [OF info _ dr nz]) (simp_all add: ual [unfolded A_def])
  moreover have "ALIGN_DOWN start align = of_nat (unat (ALIGN_DOWN start align))" by simp
  then have "ALIGN_DOWN start align = of_nat s0" unfolding st .
  moreover have "ALIGN (start + push_bit VTD_PAGE_SHIFT pages) align
      = of_nat (unat (ALIGN (start + push_bit VTD_PAGE_SHIFT pages) align))" by simp
  then have "ALIGN (start + push_bit VTD_PAGE_SHIFT pages) align = of_nat e0" unfolding en .
  ultimately show "intel_flush_svm_range_dev e s sd start
           (drop_bit VTD_PAGE_SHIFT (end' - start + PAGE_SIZE - 1)) 0 tr =
         Some (Inr (tr @ dev_flushes e s sd s0 c ((e0 - s0) div A)))"
    unfolding pages_def [symmetric]
    by (simp only: intel_flush_svm_range_dev_def Let_def sh align_def [symmetric])
qed


lemma flush_devs_run:
  assumes "\<And>sd tr. sd \<in> set sds \<Longrightarrow>
      intel_flush_svm_range_dev e s sd a n 0 tr = Some (Inr (tr @ F sd))"
  shows "flush_devs e s sds a n 0 tr = Some (Inr (tr @ concat (map F sds)))"
  using assms
proof (induction sds arbitrary: tr)
  case Nil
  show ?case by simp
next
  case (Cons sd sds)
  have "intel_flush_svm_range_dev e s sd a n 0 tr = Some (Inr (tr @ F sd))"
    using Cons.prems by simp
  moreover have "flush_devs e s sds a n 0 (tr @ F sd) = Some (Inr ((tr @ F sd) @ concat (map F sds)))"
    using Cons.prems by (intro Cons.IH) simp
  ultimately show ?case by simp
qed

text \<open>
  Claim C8. For a range \<open>[start, end)\<close> that is not empty and ends at or below
  \<open>2 ^ 62\<close>, and a binding all of whose devices have domain info: let \<open>P\<close> be the
  number of 4 KiB pages of the range, rounded up, and \<open>2 ^ c\<close> the least power of
  two that is at least \<open>P\<close>. Then \<^verbatim>\<open>intel_invalidate_range\<close> returns, and what it
  queues is, for every device-binding in list order, a sequence of \<open>k\<close>
  sub-invalidations of \<open>2 ^ c\<close> pages each, at consecutive multiples of
  \<open>4096 * 2 ^ c\<close>, from \<open>start\<close> rounded down to such a multiple up to
  \<open>start + 4096 * P\<close> rounded up to one; every address of the range lies in one of
  them.
\<close>

theorem range_invalidated_flushes:
  fixes start end' :: u64
  assumes "start < end'" and "unat end' \<le> 2 ^ 62"
    and "\<forall>sd\<in>set (svm_devs s). get_domain_info e (sdev_dev sd) \<noteq> None"
  shows "\<exists>P c s0 k.
     P = (unat end' - unat start + 4095) div 4096 \<and>
     4096 * (P - 1) < unat end' - unat start \<and> unat end' - unat start \<le> 4096 * P \<and>
     P \<le> 2 ^ c \<and> (\<forall>j. P \<le> 2 ^ j \<longrightarrow> c \<le> j) \<and>
     s0 = unat start div (4096 * 2 ^ c) * (4096 * 2 ^ c) \<and>
     s0 + k * (4096 * 2 ^ c) =
       (unat start + P * 4096 + 4096 * 2 ^ c - 1) div (4096 * 2 ^ c) * (4096 * 2 ^ c) \<and>
     intel_invalidate_range e s start end' tr =
       Some (Inr (tr @ concat (map (\<lambda>sd. dev_flushes e s sd s0 c k) (svm_devs s)))) \<and>
     (\<forall>a. unat start \<le> a \<and> a < unat end' \<longrightarrow>
        (\<exists>i<k. s0 + i * (4096 * 2 ^ c) \<le> a \<and> a < s0 + (i + 1) * (4096 * 2 ^ c)))"
proof -
  define P where "P = (unat end' - unat start + 4095) div 4096"
  define c where "c = fls (P - 1)"
  define A :: nat where "A = 4096 * 2 ^ c"
  define s0 where "s0 = unat start div A * A"
  define e0 where "e0 = (unat start + P * 4096 + A - 1) div A * A"
  define k where "k = (e0 - s0) div A"
  have SE: "unat start < unat end'" using assms(1) by (simp add: word_less_nat_alt)
  have Apos: "0 < A" by (simp add: A_def)
  have dev: "intel_flush_svm_range_dev e s sd start
           (drop_bit VTD_PAGE_SHIFT (end' - start + PAGE_SIZE - 1)) 0 tr =
         Some (Inr (tr @ dev_flushes e s sd s0 c k))" if "sd \<in> set (svm_devs s)" for sd tr
  proof -
    from that assms(3) obtain info where "get_domain_info e (sdev_dev sd) = Some info" by auto
    from range_flush_dev(1) [OF assms(1,2) this, of s tr]
    show ?thesis unfolding P_def c_def A_def s0_def e0_def k_def .
  qed
  have run: "intel_invalidate_range e s start end' tr =
       Some (Inr (tr @ concat (map (\<lambda>sd. dev_flushes e s sd s0 c k) (svm_devs s))))"
    unfolding intel_invalidate_range_def intel_flush_svm_range_def
    by (rule flush_devs_run) (rule dev)
  have sk: "s0 + k * A = e0"
  proof -
    have "unat start div A \<le> (unat start + P * 4096 + A - 1) div A"
      using Apos by (intro div_le_mono) simp
    then have le: "s0 \<le> e0" unfolding s0_def e0_def by simp
    have "A dvd e0 - s0" unfolding s0_def e0_def by (simp add: dvd_diff_nat)
    then have "(e0 - s0) div A * A = e0 - s0" by simp
    with le show ?thesis by (simp add: k_def)
  qed
  have c1: "4096 * (P - 1) < unat end' - unat start"
  proof -
    have "P * 4096 \<le> unat end' - unat start + 4095" unfolding P_def by simp
    moreover have "1 \<le> P" using SE unfolding P_def by simp
    ultimately show ?thesis by (cases P) simp_all
  qed
  have c2: "unat end' - unat start \<le> 4096 * P"
    unfolding P_def by simp
  have p1: "P \<le> 2 ^ c"
  proof -
    have "P - 1 < 2 ^ c" unfolding c_def by (rule fls_upper)
    then show ?thesis by simp
  qed
  have p2: "\<forall>j. P \<le> 2 ^ j \<longrightarrow> c \<le> j"
  proof (intro allI impI)
    fix j assume "P \<le> 2 ^ j"
    moreover have "1 \<le> P" using SE unfolding P_def by simp
    ultimately have "P - 1 < 2 ^ j" by simp
    then show "c \<le> j" unfolding c_def by (rule fls_mono_bound)
  qed
  have cov: "\<forall>a. unat start \<le> a \<and> a < unat end' \<longrightarrow>
        (\<exists>i<k. s0 + i * A \<le> a \<and> a < s0 + (i + 1) * A)"
  proof (intro allI impI)
    fix a assume a: "unat start \<le> a \<and> a < unat end'"
    have "s0 \<le> unat start" unfolding s0_def by simp
    with a have sa: "s0 \<le> a" by simp
    have "unat start + P * 4096 \<le> e0"
    proof -
      let ?X = "unat start + P * 4096 + A - 1"
      have "?X mod A < A" using Apos by simp
      moreover have "?X div A * A + ?X mod A = ?X" by simp
      ultimately show ?thesis unfolding e0_def using Apos by linarith
    qed
    with a c2 have ae: "a < e0" by linarith
    define i where "i = (a - s0) div A"
    have "i * A \<le> a - s0" unfolding i_def by simp
    with sa have l: "s0 + i * A \<le> a" by simp
    have "a - s0 < (i + 1) * A" unfolding i_def using Apos
      by (simp add: dividend_less_times_div mult.commute)
    with sa have u: "a < s0 + (i + 1) * A" by simp
    have "i < k"
    proof (rule ccontr)
      assume "\<not> i < k"
      then have "k * A \<le> i * A" by simp
      with l sk ae show False by simp
    qed
    with l u show "\<exists>i<k. s0 + i * A \<le> a \<and> a < s0 + (i + 1) * A" by blast
  qed
  from c1 c2 p1 p2 sk run cov show ?thesis
    unfolding A_def s0_def e0_def P_def [symmetric] by blast
qed


theorem range_invalidated_flushes_witness:
  "(0x1000::u64) < 0x3000 \<and> unat (0x3000::u64) \<le> 2 ^ 62 \<and>
   svm_devs ex_svm_host = [ex_sdev1 5] \<and>
   get_domain_info (ex_env []) (sdev_dev (ex_sdev1 5)) = Some ex_info \<and>
   intel_invalidate_range (ex_env []) ex_svm_host 0x1000 0x3000 [] =
     Some (Inr [QiFlushPiotlb 1 5 0 2 0, QiFlushDevIotlbPasid 0x10 0x10 5 0 0 1,
                QiFlushPiotlb 1 5 0x2000 2 0, QiFlushDevIotlbPasid 0x10 0x10 5 0 0x2000 1]) \<and>
   (\<exists>P c s0 k.
     P = (unat (0x3000::u64) - unat (0x1000::u64) + 4095) div 4096 \<and>
     P \<le> 2 ^ c \<and> (\<forall>j. P \<le> 2 ^ j \<longrightarrow> c \<le> j) \<and>
     s0 = unat (0x1000::u64) div (4096 * 2 ^ c) * (4096 * 2 ^ c) \<and>
     intel_invalidate_range (ex_env []) ex_svm_host 0x1000 0x3000 [] =
       Some (Inr ([] @ concat (map (\<lambda>sd. dev_flushes (ex_env []) ex_svm_host sd s0 c k)
                                 (svm_devs ex_svm_host)))) \<and>
     (\<forall>a. unat (0x1000::u64) \<le> a \<and> a < unat (0x3000::u64) \<longrightarrow>
        (\<exists>i<k. s0 + i * (4096 * 2 ^ c) \<le> a \<and> a < s0 + (i + 1) * (4096 * 2 ^ c))))"
proof -
  have h1: "(0x1000::u64) < 0x3000" by simp
  have h2: "unat (0x3000::u64) \<le> 2 ^ 62" by simp
  have h3: "\<forall>sd\<in>set (svm_devs ex_svm_host). get_domain_info (ex_env []) (sdev_dev sd) \<noteq> None"
    by (simp add: ex_svm_host_def ex_sdev1_def ex_env_def)
  have ev: "intel_invalidate_range (ex_env []) ex_svm_host 0x1000 0x3000 [] =
     Some (Inr [QiFlushPiotlb 1 5 0 2 0, QiFlushDevIotlbPasid 0x10 0x10 5 0 0 1,
                QiFlushPiotlb 1 5 0x2000 2 0, QiFlushDevIotlbPasid 0x10 0x10 5 0 0x2000 1])"
    by code_simp
  from range_invalidated_flushes [OF h1 h2 h3, of "[]"]
  have "\<exists>P c s0 k.
     P = (unat (0x3000::u64) - unat (0x1000::u64) + 4095) div 4096 \<and>
     P \<le> 2 ^ c \<and> (\<forall>j. P \<le> 2 ^ j \<longrightarrow> c \<le> j) \<and>
     s0 = unat (0x1000::u64) div (4096 * 2 ^ c) * (4096 * 2 ^ c) \<and>
     intel_invalidate_range (ex_env []) ex_svm_host 0x1000 0x3000 [] =
       Some (Inr ([] @ concat (map (\<lambda>sd. dev_flushes (ex_env []) ex_svm_host sd s0 c k)
                                 (svm_devs ex_svm_host)))) \<and>
     (\<forall>a. unat (0x1000::u64) \<le> a \<and> a < unat (0x3000::u64) \<longrightarrow>
        (\<exists>i<k. s0 + i * (4096 * 2 ^ c) \<le> a \<and> a < s0 + (i + 1) * (4096 * 2 ^ c)))"
    by blast
  moreover have "svm_devs ex_svm_host = [ex_sdev1 5]"
    "get_domain_info (ex_env []) (sdev_dev (ex_sdev1 5)) = Some ex_info"
    by (simp_all add: ex_svm_host_def ex_sdev1_def ex_env_def)
  ultimately show ?thesis using h1 h2 ev by blast
qed

subsection \<open>Bind and unbind\<close>


lemma update_first_twice:
  assumes "\<And>x. P x \<Longrightarrow> P (g x)"
  shows "update_first P f (update_first P g xs) = update_first P (\<lambda>x. f (g x)) xs"
  using assms by (induction xs) auto


lemma find_update_first:
  assumes "find P xs = Some x" and "P (f x)"
  shows "find P (update_first P f xs) = Some (f x)"
  using assms by (induction xs) (auto split: if_splits)

lemma find_Some_set: "find P xs = Some x \<Longrightarrow> x \<in> set xs \<and> P x"
  by (induction xs) (auto split: if_splits)

lemma registry_simps [simp]:
  "registry (log_event st ev) = registry st"
  "registry (st\<lparr>log := tr\<rparr>) = registry st"
  by (simp_all add: registry_def log_event_def)

lemma new_sdev_dev [simp]: "sdev_dev (new_sdev e d info) = d"
  by (simp add: new_sdev_def)






lemma log_event_fields [simp]:
  "svms (log_event st ev) = svms st"
  "global_svm_list (log_event st ev) = global_svm_list st"
  "ioasids (log_event st ev) = ioasids st"
  "notifiers (log_event st ev) = notifiers st"
  by (simp_all add: log_event_def)








text \<open>The unbind returns whenever the drain does.\<close>

lemma intel_svm_unbind_mm_returns:
  assumes "\<forall>pid tr. intel_svm_drain_prq e d pid tr \<noteq> None"
  shows "intel_svm_unbind_mm e st d p \<noteq> None"
  by (simp add: intel_svm_unbind_mm_def Let_def assms
      split: sum.split prod.split option.split)





subsection \<open>Binding a device that is already bound\<close>

text \<open>
  Claim C3, as stated, fails. In the registry \<open>ex_reg_bound\<close> the address space 1 has a
  binding and device 1 has a device-binding on it; a second bind of device 1 to the
  address space 1 does not refuse with EALREADY: it returns 0 and the handle of the
  existing device-binding, whose usage count is now 2, so the registry has changed.
\<close>

theorem bind_existing_device_counterexample:
  "10 \<in> set (global_svm_list ex_reg_bound) \<and> svms ex_reg_bound 10 = Some ex_svm_host \<and>
   svm_mm ex_svm_host = Some 1 \<and> ex_sdev1 5 \<in> set (svm_devs ex_svm_host) \<and>
   sdev_dev (ex_sdev1 5) = 1 \<and>
   intel_svm_bind_mm (ex_env []) ex_reg_bound 1 {} (Some 1) =
     Inr (0, Some ((ex_sdev1 5)\<lparr>sdev_users := 2\<rparr>), ex_reg_twice) \<and>
   (0::int) \<noteq> - EALREADY \<and>
   svms ex_reg_twice 10 \<noteq> svms ex_reg_bound 10"
  by (simp add: intel_svm_bind_mm_def ex_env_def ex_reg_bound_def ex_reg_twice_def
      ex_svm_host_def ex_sdev1_def Let_def bind_success_def EALREADY_def)

text \<open>
  Claim C3, amended. Let the bind pass the checks that come before the search of the
  registry: the device is behind the IOMMU and DMA remapping is not disabled; the IOMMU
  is capable of SVM; the PASID limit of a PCI device is not negative; and the supervisor
  flag comes only with supervisor-request support and without an address space. Let the
  first binding of \<^verbatim>\<open>global_svm_list\<close> for the address space be a live binding whose
  pasid is below the PASID limit of the device (that of a PCI device, else \<open>2 ^ 20\<close>),
  and let \<open>sd\<close> be the first device-binding of the device on it. Then bind returns 0 and
  \<open>sd\<close> as the handle, with its usage count incremented by one and its pasid set to the
  binding's; in the registry only this device-binding changes, nothing is logged.
\<close>

theorem bind_existing_device_counts:
  assumes "device_to_iommu e d" and "\<not> dmar_disabled e" and "intel_svm_capable e"
    and "\<not> (dev_is_pci e d \<and> pci_max_pasids e d < 0)"
    and "SVM_FLAG_SUPERVISOR_MODE \<in> flags \<longrightarrow> ecap_srs e \<and> m = None"
    and "find_svm_mm (svms st) m (global_svm_list st) = Inr (Some q)"
    and "svms st q = Some s"
    and "svm_pasid s < of_int (if dev_is_pci e d then pci_max_pasids e d else 2 ^ 20)"
    and "find (\<lambda>t. sdev_dev t = d) (svm_devs s) = Some sd"
  shows "intel_svm_bind_mm e st d flags m =
     Inr (0, Some (sd\<lparr>sdev_users := sdev_users sd + 1, sdev_pasid := svm_pasid s\<rparr>),
          st\<lparr>svms := (svms st)(q \<mapsto> s\<lparr>svm_devs := update_first (\<lambda>t. sdev_dev t = d)
               (\<lambda>t. t\<lparr>sdev_users := sdev_users t + 1, sdev_pasid := svm_pasid s\<rparr>)
               (svm_devs s)\<rparr>)\<rparr>)"
proof -
  have P: "sdev_dev sd = d" using find_Some_set [OF assms(9)] by simp
  have uf: "update_first (\<lambda>t. sdev_dev t = d) (\<lambda>t. t\<lparr>sdev_pasid := svm_pasid s\<rparr>)
        (update_first (\<lambda>t. sdev_dev t = d) (\<lambda>t. t\<lparr>sdev_users := sdev_users t + 1\<rparr>) (svm_devs s))
      = update_first (\<lambda>t. sdev_dev t = d)
          (\<lambda>t. t\<lparr>sdev_users := sdev_users t + 1, sdev_pasid := svm_pasid s\<rparr>) (svm_devs s)"
    by (subst update_first_twice) simp_all
  have fu: "find (\<lambda>t. sdev_dev t = d) (update_first (\<lambda>t. sdev_dev t = d)
          (\<lambda>t. t\<lparr>sdev_users := sdev_users t + 1, sdev_pasid := svm_pasid s\<rparr>) (svm_devs s))
      = Some (sd\<lparr>sdev_users := sdev_users sd + 1, sdev_pasid := svm_pasid s\<rparr>)"
    using find_update_first [OF assms(9),
        of "\<lambda>t. t\<lparr>sdev_users := sdev_users t + 1, sdev_pasid := svm_pasid s\<rparr>"] P
    by simp
  have np: "\<not> svm_pasid s \<ge> of_int (if dev_is_pci e d then pci_max_pasids e d else 2 ^ 20)"
    using assms(8) by simp
  show ?thesis
    using assms(1-7,9) np
    by (auto simp add: intel_svm_bind_mm_def Let_def bind_success_def uf fu)
qed

theorem bind_existing_device_counts_witness:
  "device_to_iommu (ex_env []) 1 \<and> \<not> dmar_disabled (ex_env []) \<and> intel_svm_capable (ex_env []) \<and>
   find_svm_mm (svms ex_reg_bound) (Some 1) (global_svm_list ex_reg_bound) = Inr (Some 10) \<and>
   svms ex_reg_bound 10 = Some ex_svm_host \<and>
   find (\<lambda>t. sdev_dev t = 1) (svm_devs ex_svm_host) = Some (ex_sdev1 5) \<and>
   intel_svm_bind_mm (ex_env []) ex_reg_bound 1 {} (Some 1) =
     Inr (0, Some ((ex_sdev1 5)\<lparr>sdev_users := sdev_users (ex_sdev1 5) + 1,
                               sdev_pasid := svm_pasid ex_svm_host\<rparr>),
          ex_reg_bound\<lparr>svms := (svms ex_reg_bound)(10 \<mapsto> ex_svm_host\<lparr>svm_devs :=
             update_first (\<lambda>t. sdev_dev t = 1)
               (\<lambda>t. t\<lparr>sdev_users := sdev_users t + 1, sdev_pasid := svm_pasid ex_svm_host\<rparr>)
               (svm_devs ex_svm_host)\<rparr>)\<rparr>)"
proof -
  have c: "device_to_iommu (ex_env []) 1" "\<not> dmar_disabled (ex_env [])"
    "intel_svm_capable (ex_env [])"
    "\<not> (dev_is_pci (ex_env []) 1 \<and> pci_max_pasids (ex_env []) 1 < 0)"
    "SVM_FLAG_SUPERVISOR_MODE \<in> {} \<longrightarrow> ecap_srs (ex_env []) \<and> Some (1::nat) = None"
    by (simp_all add: ex_env_def)
  have f: "find_svm_mm (svms ex_reg_bound) (Some 1) (global_svm_list ex_reg_bound) = Inr (Some 10)"
    "svms ex_reg_bound 10 = Some ex_svm_host"
    by (simp_all add: ex_reg_bound_def ex_svm_host_def)
  have p: "svm_pasid ex_svm_host
      < of_int (if dev_is_pci (ex_env []) 1 then pci_max_pasids (ex_env []) 1 else 2 ^ 20)"
    by (simp add: ex_env_def ex_svm_host_def)
  have s: "find (\<lambda>t. sdev_dev t = 1) (svm_devs ex_svm_host) = Some (ex_sdev1 5)"
    by (simp add: ex_svm_host_def ex_sdev1_def)
  from bind_existing_device_counts [OF c f p s] c f s show ?thesis by simp
qed

end
